theory Spec2Isabelle
  imports Main "HOL-Library.Log_Nat"
begin

section \<open>Dynamic values\<close>

text \<open>
  A Go \<^verbatim>\<open>float64\<close>. Finite values are carried by the rational they denote (the two
  zeros are identified); the infinities and NaN, which \<^verbatim>\<open>strconv.ParseFloat\<close> can
  return, are separate constructors.
\<close>

datatype float64 = Finite rat | PosInf | NegInf | NaN

text \<open>
  A Go \<^verbatim>\<open>interface{}\<close> value, tagged with its dynamic type. \<open>VMap\<close> is
  \<^verbatim>\<open>map[string]interface{}\<close> (an association list read with \<open>map_of\<close>),
  \<open>VSlice\<close> is \<^verbatim>\<open>[]interface{}\<close>, \<open>VRows\<close> is
  \<^verbatim>\<open>[]map[string]interface{}\<close>, whose elements may be nil maps (\<open>None\<close>).
  \<open>VOther\<close> stands for a value of any other dynamic type, named by a label.
  A nil slice and an empty slice are both the empty list.
\<close>

datatype val =
    VNil
  | VBool bool
  | VFloat float64
  | VInt int
  | VString string
  | VMap "(string \<times> val) list"
  | VSlice "val list"
  | VRows "(string \<times> val) list option list"
  | VOther string

type_synonym gomap = "(string \<times> val) list"
type_synonym rows = "gomap option list"

section \<open>Floating-point rounding\<close>

text \<open>
  Arithmetic on finite \<^verbatim>\<open>float64\<close> values is exact arithmetic followed by rounding
  to the nearest value with a 53-bit significand, ties to even (\<open>fl\<close>). The exponent is
  unbounded: overflow and subnormal numbers are not modelled, and the values this program
  computes (quotients and differences of integers below \<open>2 ^ 63\<close> and of 100) stay far
  from both. Each operation is rounded on its own: multiplication and subtraction are not
  fused.
\<close>

definition ilog2 :: "rat \<Rightarrow> int" where
  "ilog2 x = (let (a, b) = quotient_of x; d = bitlen a - bitlen b
              in if 2 powi d \<le> x then d else d - 1)"

definition rne :: "rat \<Rightarrow> int" where
  "rne y = (let f = \<lfloor>y\<rfloor>; d = y - of_int f
            in if d < 1/2 then f else if 1/2 < d then f + 1
               else if even f then f else f + 1)"

definition fl_pos :: "rat \<Rightarrow> rat" where
  "fl_pos x = (let u = 2 powi (ilog2 x - 52) in of_int (rne (x / u)) * u)"

definition fl :: "rat \<Rightarrow> rat" where
  "fl x = (if x = 0 then 0 else if x < 0 then - fl_pos (- x) else fl_pos x)"

text \<open>\<^verbatim>\<open>float64(n)\<close> for an integer \<open>n\<close>, and the three operations the program uses.\<close>

definition f64_of_int :: "int \<Rightarrow> rat" where
  "f64_of_int n = fl (of_int n)"

definition f64_div :: "rat \<Rightarrow> rat \<Rightarrow> rat" where
  "f64_div a b = fl (a / b)"

definition f64_mul :: "rat \<Rightarrow> rat \<Rightarrow> rat" where
  "f64_mul a b = fl (a * b)"

definition f64_sub :: "rat \<Rightarrow> rat \<Rightarrow> rat" where
  "f64_sub a b = fl (a - b)"

section \<open>Timestamps and their RFC3339 rendering\<close>

text \<open>
  A \<^verbatim>\<open>time.Time\<close> is an instant (nanoseconds since the Unix epoch) together with the
  offset, in seconds east of UTC, that its location has at that instant.
  \<open>Format_RFC3339\<close> is \<^verbatim>\<open>t.Format(time.RFC3339)\<close>, layout
  \<^verbatim>\<open>2006-01-02T15:04:05Z07:00\<close>: the civil date and clock of the instant shifted by the
  offset, then \<^verbatim>\<open>Z\<close> for offset 0 and a signed \<^verbatim>\<open>hh:mm\<close> otherwise.
\<close>

record gotime =
  unixNano :: int
  zoneOffset :: int

fun digits :: "nat \<Rightarrow> string" where
  "digits n = (if n < 10 then [''0123456789'' ! n]
               else digits (n div 10) @ [''0123456789'' ! (n mod 10)])"

definition appendInt :: "int \<Rightarrow> nat \<Rightarrow> string" where
  "appendInt x width =
     (let ds = digits (nat \<bar>x\<bar>)
      in (if x < 0 then ''-'' else []) @ replicate (width - length ds) CHR ''0'' @ ds)"

text \<open>Year, month and day of a day count since 1970-01-01 (proleptic Gregorian calendar).\<close>

definition civil_date :: "int \<Rightarrow> int \<times> int \<times> int" where
  "civil_date days =
     (let z = days + 719468;
          era = z div 146097;
          doe = z mod 146097;
          yoe = (doe - doe div 1460 + doe div 36524 - doe div 146096) div 365;
          doy = doe - (365 * yoe + yoe div 4 - yoe div 100);
          mp = (5 * doy + 2) div 153;
          d = doy - (153 * mp + 2) div 5 + 1;
          m = (if mp < 10 then mp + 3 else mp - 9);
          y = yoe + era * 400 + (if m \<le> 2 then 1 else 0)
      in (y, m, d))"

text \<open>Go's integer division truncates toward zero.\<close>

definition go_quot :: "int \<Rightarrow> int \<Rightarrow> int" where
  "go_quot a b = sgn a * sgn b * (\<bar>a\<bar> div \<bar>b\<bar>)"

definition format_zone :: "int \<Rightarrow> string" where
  "format_zone offset =
     (if offset = 0 then ''Z''
      else let zone = go_quot offset 60
           in (if zone < 0 then ''-'' else ''+'')
              @ appendInt (\<bar>zone\<bar> div 60) 2 @ '':'' @ appendInt (\<bar>zone\<bar> mod 60) 2)"

definition Format_RFC3339 :: "gotime \<Rightarrow> string" where
  "Format_RFC3339 t =
     (let sec = unixNano t div 1000000000 + zoneOffset t;
          (year, month, day) = civil_date (sec div 86400);
          r = sec mod 86400
      in appendInt year 4 @ ''-'' @ appendInt month 2 @ ''-'' @ appendInt day 2 @ ''T''
         @ appendInt (r div 3600) 2 @ '':'' @ appendInt (r mod 3600 div 60) 2 @ '':''
         @ appendInt (r mod 60) 2 @ format_zone (zoneOffset t))"

text \<open>\<^verbatim>\<open>time.Date(y, m, d, hh, mm, ss, 0, loc)\<close> for a location at a fixed offset.\<close>

definition days_from_civil :: "int \<Rightarrow> int \<Rightarrow> int \<Rightarrow> int" where
  "days_from_civil y m d =
     (let y' = (if m \<le> 2 then y - 1 else y);
          era = y' div 400;
          yoe = y' mod 400;
          doy = (153 * (if m > 2 then m - 3 else m + 9) + 2) div 5 + d - 1;
          doe = yoe * 365 + yoe div 4 - yoe div 100 + doy
      in era * 146097 + doe - 719468)"

definition Date :: "int \<Rightarrow> int \<Rightarrow> int \<Rightarrow> int \<Rightarrow> int \<Rightarrow> int \<Rightarrow> int \<Rightarrow> gotime" where
  "Date y m d hh mm ss offset =
     \<lparr>unixNano = (days_from_civil y m d * 86400 + hh * 3600 + mm * 60 + ss - offset) * 1000000000,
      zoneOffset = offset\<rparr>"

section \<open>The in-process cache (internal/repository/cache.go)\<close>

text \<open>
  Clock readings and durations are integers (nanoseconds). \<^verbatim>\<open>time.Now()\<close> is an
  explicit argument of every operation that reads the clock. The reader/writer lock makes
  each operation atomic, so each is a function on the cache state.
\<close>

type_synonym instant = int
type_synonym duration = int

record cacheItem =
  item_value :: val
  expiration :: instant

record MemoryCache =
  items :: "string \<rightharpoonup> cacheItem"

definition NewMemoryCache :: MemoryCache where
  "NewMemoryCache = \<lparr>items = Map.empty\<rparr>"

text \<open>\<^verbatim>\<open>t.After(u)\<close> is \<open>u < t\<close>.\<close>

definition mc_Get :: "MemoryCache \<Rightarrow> instant \<Rightarrow> string \<Rightarrow> val \<times> bool" where
  "mc_Get c now key =
     (case items c key of
        None \<Rightarrow> (VNil, False)
      | Some item \<Rightarrow>
          if expiration item < now then (VNil, False)
          else (item_value item, True))"

definition mc_Set :: "MemoryCache \<Rightarrow> instant \<Rightarrow> string \<Rightarrow> val \<Rightarrow> duration \<Rightarrow> MemoryCache" where
  "mc_Set c now key v d =
     c\<lparr>items := (items c)(key \<mapsto> \<lparr>item_value = v, expiration = now + d\<rparr>)\<rparr>"

definition mc_Delete :: "MemoryCache \<Rightarrow> string \<Rightarrow> MemoryCache" where
  "mc_Delete c key = c\<lparr>items := (items c)(key := None)\<rparr>"

text \<open>One pass of the background sweep, run at clock reading \<open>now\<close>.\<close>

definition mc_cleanup :: "MemoryCache \<Rightarrow> instant \<Rightarrow> MemoryCache" where
  "mc_cleanup c now =
     c\<lparr>items := (\<lambda>k. case items c k of
                        None \<Rightarrow> None
                      | Some item \<Rightarrow> if expiration item < now then None else Some item)\<rparr>"


section \<open>The cache capability and the remote cache\<close>

text \<open>Go \<^verbatim>\<open>error\<close> values, identified by their message.\<close>

datatype err = Err string

text \<open>
  The \<^verbatim>\<open>Cache\<close> interface (cache_interface.go) over a cache state \<open>'c\<close>; every method
  also receives the clock reading at which it runs. Get returns a value and a found flag,
  Set and Delete return only the new state: the interface has no error result.
\<close>

record 'c Cache =
  cache_Get :: "'c \<Rightarrow> instant \<Rightarrow> string \<Rightarrow> val \<times> bool"
  cache_Set :: "'c \<Rightarrow> instant \<Rightarrow> string \<Rightarrow> val \<Rightarrow> duration \<Rightarrow> 'c"
  cache_Delete :: "'c \<Rightarrow> instant \<Rightarrow> string \<Rightarrow> 'c"

definition MemoryCache_impl :: "MemoryCache Cache" where
  "MemoryCache_impl =
     \<lparr>cache_Get = mc_Get, cache_Set = mc_Set, cache_Delete = (\<lambda>c now key. mc_Delete c key)\<rparr>"

text \<open>
  The remote cache calls the Redis client and \<^verbatim>\<open>encoding/json\<close>. Both are libraries:
  the client's three commands act on a backend state \<open>'b\<close> and Get may fail (a missing key
  is the failure \<^verbatim>\<open>redis.Nil\<close>); Marshal and Unmarshal may fail. The status that the
  client's Set and Del report is discarded by the source, so they return the state only.
\<close>

record 'b RedisLib =
  client_Get :: "'b \<Rightarrow> instant \<Rightarrow> string \<Rightarrow> err + string"
  client_Set :: "'b \<Rightarrow> instant \<Rightarrow> string \<Rightarrow> string \<Rightarrow> duration \<Rightarrow> 'b"
  client_Del :: "'b \<Rightarrow> instant \<Rightarrow> string \<Rightarrow> 'b"
  json_Marshal :: "val \<Rightarrow> err + string"
  json_Unmarshal :: "string \<Rightarrow> err + val"

definition redis_Get :: "'b RedisLib \<Rightarrow> 'b \<Rightarrow> instant \<Rightarrow> string \<Rightarrow> val \<times> bool" where
  "redis_Get lib b now key =
     (case client_Get lib b now key of
        Inl e \<Rightarrow> (VNil, False)
      | Inr v \<Rightarrow>
          (case json_Unmarshal lib v of
             Inl e \<Rightarrow> (VNil, False)
           | Inr result \<Rightarrow> (result, True)))"

definition redis_Set :: "'b RedisLib \<Rightarrow> 'b \<Rightarrow> instant \<Rightarrow> string \<Rightarrow> val \<Rightarrow> duration \<Rightarrow> 'b" where
  "redis_Set lib b now key v d =
     (case json_Marshal lib v of
        Inl e \<Rightarrow> b
      | Inr data \<Rightarrow> client_Set lib b now key data d)"

definition redis_Delete :: "'b RedisLib \<Rightarrow> 'b \<Rightarrow> instant \<Rightarrow> string \<Rightarrow> 'b" where
  "redis_Delete lib b now key = client_Del lib b now key"

definition RedisCache_impl :: "'b RedisLib \<Rightarrow> 'b Cache" where
  "RedisCache_impl lib =
     \<lparr>cache_Get = redis_Get lib, cache_Set = redis_Set lib, cache_Delete = redis_Delete lib\<rparr>"

section \<open>The computation service\<close>

text \<open>
  A call of a Go function either returns its pair of results (the value and the error,
  \<open>None\<close> for a nil error) or panics.
\<close>

datatype 'a outcome = Returns 'a "err option" | Panics

text \<open>
  The \<^verbatim>\<open>TransactionRepositoryInterface\<close>. A repository whose answers change between
  two calls is two values of this record.
\<close>

record TransactionRepositoryInterface =
  repo_CalculateGGR :: "gotime \<Rightarrow> gotime \<Rightarrow> rows outcome"
  repo_CalculateDailyWagerVolume :: "gotime \<Rightarrow> gotime \<Rightarrow> rows outcome"
  repo_CalculateUserWagerPercentile :: "string \<Rightarrow> gotime \<Rightarrow> gotime \<Rightarrow> float64 outcome"

text \<open>
  What a call of the service does to its collaborators is recorded in a trace, in order:
  the cache methods called, the repository methods called and the lines logged.
\<close>

datatype event =
    CacheGet string
  | CacheSet string val duration
  | RepoGGR gotime gotime
  | RepoDaily gotime gotime
  | RepoPercentile string gotime gotime
  | Logged string

record 'c world =
  cache_state :: 'c
  trace :: "event list"

definition emit :: "event \<Rightarrow> 'c world \<Rightarrow> 'c world" where
  "emit e w = w\<lparr>trace := trace w @ [e]\<rparr>"

definition is_repo_call :: "event \<Rightarrow> bool" where
  "is_repo_call e = (case e of RepoGGR f t \<Rightarrow> True | RepoDaily f t \<Rightarrow> True
                     | RepoPercentile u f t \<Rightarrow> True | _ \<Rightarrow> False)"

definition is_cache_set :: "event \<Rightarrow> bool" where
  "is_cache_set e = (case e of CacheSet k v d \<Rightarrow> True | _ \<Rightarrow> False)"

definition fiveMinutes :: duration where
  "fiveMinutes = 5 * 60 * 1000000000"

definition mismatch_msg :: "string \<Rightarrow> string" where
  "mismatch_msg cacheKey = ''Cache type mismatch for key '' @ cacheKey @ '', fetching from DB''"

text \<open>
  The outcome of a type switch on a cached value: a case that returns (\<open>Hit\<close>), a case
  that matches but does not return (\<open>Fallthrough\<close>), the default case, which logs
  (\<open>Default\<close>).
\<close>

datatype 'a switched = Hit 'a | Fallthrough | Default

text \<open>The type switch of CalculateGGR and CalculateDailyWagerVolume.\<close>

definition rows_switch :: "val \<Rightarrow> rows switched" where
  "rows_switch cachedData =
     (case cachedData of
        VRows data \<Rightarrow> Hit data
      | VSlice data \<Rightarrow>
          Hit (map (\<lambda>item. case item of VMap mapItem \<Rightarrow> Some mapItem | _ \<Rightarrow> None) data)
      | _ \<Rightarrow> Default)"

text \<open>
  The type switch of CalculateUserWagerPercentile. \<^verbatim>\<open>strconv.ParseFloat(data, 64)\<close> is
  the parameter \<open>ParseFloat\<close>, \<open>None\<close> when it reports an error.
\<close>

definition percentile_switch :: "(string \<Rightarrow> float64 option) \<Rightarrow> val \<Rightarrow> float64 switched" where
  "percentile_switch ParseFloat cachedData =
     (case cachedData of
        VFloat data \<Rightarrow> Hit data
      | VInt data \<Rightarrow> Hit (Finite (f64_of_int data))
      | VString data \<Rightarrow>
          (case ParseFloat data of Some v \<Rightarrow> Hit v | None \<Rightarrow> Fallthrough)
      | VMap data \<Rightarrow>
          (case map_of data ''value'' of Some (VFloat v) \<Rightarrow> Hit v | _ \<Rightarrow> Fallthrough)
      | _ \<Rightarrow> Default)"

definition ggr_key :: "gotime \<Rightarrow> gotime \<Rightarrow> string" where
  "ggr_key from to = ''ggr:'' @ Format_RFC3339 from @ '':'' @ Format_RFC3339 to"

definition daily_wager_key :: "gotime \<Rightarrow> gotime \<Rightarrow> string" where
  "daily_wager_key from to = ''daily_wager:'' @ Format_RFC3339 from @ '':'' @ Format_RFC3339 to"

definition percentile_key :: "string \<Rightarrow> gotime \<Rightarrow> gotime \<Rightarrow> string" where
  "percentile_key userID from to =
     ''percentile:'' @ userID @ '':'' @ Format_RFC3339 from @ '':'' @ Format_RFC3339 to"

text \<open>
  The three operations. \<open>tget\<close> and \<open>tset\<close> are the clock readings at the call of the
  cache's Get and Set.
\<close>

definition CalculateGGR ::
  "'c Cache \<Rightarrow> TransactionRepositoryInterface \<Rightarrow> instant \<Rightarrow> instant \<Rightarrow> 'c world
     \<Rightarrow> gotime \<Rightarrow> gotime \<Rightarrow> rows outcome \<times> 'c world" where
  "CalculateGGR cache repo tget tset w from to =
     (let cacheKey = ggr_key from to;
          (cachedData, found) = cache_Get cache (cache_state w) tget cacheKey;
          w1 = emit (CacheGet cacheKey) w;
          sw = (if found then rows_switch cachedData else Fallthrough)
      in case sw of
           Hit data \<Rightarrow> (Returns data None, w1)
         | _ \<Rightarrow>
           (let w2 = (if sw = Default then emit (Logged (mismatch_msg cacheKey)) w1 else w1);
                w3 = emit (RepoGGR from to) w2
            in case repo_CalculateGGR repo from to of
                 Panics \<Rightarrow> (Panics, w3)
               | Returns results (Some e) \<Rightarrow> (Returns [] (Some e), w3)
               | Returns results None \<Rightarrow>
                   (Returns results None,
                    emit (CacheSet cacheKey (VRows results) fiveMinutes)
                      (w3\<lparr>cache_state :=
                            cache_Set cache (cache_state w3) tset cacheKey (VRows results)
                              fiveMinutes\<rparr>))))"

definition CalculateDailyWagerVolume ::
  "'c Cache \<Rightarrow> TransactionRepositoryInterface \<Rightarrow> instant \<Rightarrow> instant \<Rightarrow> 'c world
     \<Rightarrow> gotime \<Rightarrow> gotime \<Rightarrow> rows outcome \<times> 'c world" where
  "CalculateDailyWagerVolume cache repo tget tset w from to =
     (let cacheKey = daily_wager_key from to;
          (cachedData, found) = cache_Get cache (cache_state w) tget cacheKey;
          w1 = emit (CacheGet cacheKey) w;
          sw = (if found then rows_switch cachedData else Fallthrough)
      in case sw of
           Hit data \<Rightarrow> (Returns data None, w1)
         | _ \<Rightarrow>
           (let w2 = (if sw = Default then emit (Logged (mismatch_msg cacheKey)) w1 else w1);
                w3 = emit (RepoDaily from to) w2
            in case repo_CalculateDailyWagerVolume repo from to of
                 Panics \<Rightarrow> (Panics, w3)
               | Returns results (Some e) \<Rightarrow> (Returns [] (Some e), w3)
               | Returns results None \<Rightarrow>
                   (Returns results None,
                    emit (CacheSet cacheKey (VRows results) fiveMinutes)
                      (w3\<lparr>cache_state :=
                            cache_Set cache (cache_state w3) tset cacheKey (VRows results)
                              fiveMinutes\<rparr>))))"

definition CalculateUserWagerPercentile ::
  "(string \<Rightarrow> float64 option) \<Rightarrow> 'c Cache \<Rightarrow> TransactionRepositoryInterface \<Rightarrow> instant
     \<Rightarrow> instant \<Rightarrow> 'c world \<Rightarrow> string \<Rightarrow> gotime \<Rightarrow> gotime \<Rightarrow> float64 outcome \<times> 'c world" where
  "CalculateUserWagerPercentile ParseFloat cache repo tget tset w userID from to =
     (let cacheKey = percentile_key userID from to;
          (cachedData, found) = cache_Get cache (cache_state w) tget cacheKey;
          w1 = emit (CacheGet cacheKey) w;
          sw = (if found then percentile_switch ParseFloat cachedData else Fallthrough)
      in case sw of
           Hit data \<Rightarrow> (Returns data None, w1)
         | _ \<Rightarrow>
           (let w2 = (if sw = Default then emit (Logged (mismatch_msg cacheKey)) w1 else w1);
                w3 = emit (RepoPercentile userID from to) w2
            in case repo_CalculateUserWagerPercentile repo userID from to of
                 Panics \<Rightarrow> (Panics, w3)
               | Returns percentile (Some e) \<Rightarrow> (Returns (Finite 0) (Some e), w3)
               | Returns percentile None \<Rightarrow>
                   (Returns percentile None,
                    emit (CacheSet cacheKey (VFloat percentile) fiveMinutes)
                      (w3\<lparr>cache_state :=
                            cache_Set cache (cache_state w3) tset cacheKey (VFloat percentile)
                              fiveMinutes\<rparr>))))"

section \<open>The repository's percentile computation\<close>

text \<open>
  \<^verbatim>\<open>TransactionRepository.CalculateUserWagerPercentile\<close> runs two aggregation pipelines
  on the collection. The document store is external: a collection answers a pipeline
  with a failure of Aggregate, a failure of the cursor, or the documents, which for the
  second pipeline the store has already grouped by user and sorted by descending total.
\<close>

datatype pipeline =
    UserWagerPipeline string gotime gotime
  | AllUsersPipeline gotime gotime

datatype answer = AggregateError err | CursorError err | Docs "gomap list"

text \<open>
  The loop that finds the user's position: \<open>i\<close> is the index of the head of the list.
  \<^verbatim>\<open>id.(string)\<close> panics (\<open>None\<close>) when \<^verbatim>\<open>_id\<close> is absent or not a string; a user
  not in the list leaves \<^verbatim>\<open>userRank\<close> at 0.
\<close>

fun findUserRank :: "string \<Rightarrow> gomap list \<Rightarrow> int \<Rightarrow> int option" where
  "findUserRank userID [] i = Some 0"
| "findUserRank userID (result # rest) i =
     (case map_of result ''_id'' of
        Some (VString uid) \<Rightarrow>
          if uid = userID then Some (i + 1) else findUserRank userID rest (i + 1)
      | _ \<Rightarrow> None)"

definition percentile_of_rank :: "int \<Rightarrow> int \<Rightarrow> rat" where
  "percentile_of_rank userRank totalUsers =
     f64_sub 100 (f64_mul (f64_div (f64_of_int (userRank - 1)) (f64_of_int totalUsers)) 100)"

definition TransactionRepository_CalculateUserWagerPercentile ::
  "(pipeline \<Rightarrow> answer) \<Rightarrow> string \<Rightarrow> gotime \<Rightarrow> gotime \<Rightarrow> float64 outcome" where
  "TransactionRepository_CalculateUserWagerPercentile collection userID from to =
     (case collection (UserWagerPipeline userID from to) of
        AggregateError e \<Rightarrow> Returns (Finite 0) (Some e)
      | CursorError e \<Rightarrow> Returns (Finite 0) (Some e)
      | Docs userResults \<Rightarrow>
          if length userResults = 0 then Returns (Finite 0) None
          else
            (case collection (AllUsersPipeline from to) of
               AggregateError e \<Rightarrow> Returns (Finite 0) (Some e)
             | CursorError e \<Rightarrow> Returns (Finite 0) (Some e)
             | Docs allUsersResults \<Rightarrow>
                 (let totalUsers = int (length allUsersResults)
                  in if totalUsers = 0 then Returns (Finite 0) None
                     else
                       (case findUserRank userID allUsersResults 0 of
                          None \<Rightarrow> Panics
                        | Some userRank \<Rightarrow>
                            Returns (Finite (percentile_of_rank userRank totalUsers)) None))))"

section \<open>Observations on a run and sample collaborators\<close>

definition is_hit :: "'a switched \<Rightarrow> bool" where
  "is_hit s = (case s of Hit x \<Rightarrow> True | _ \<Rightarrow> False)"

definition repo_calls :: "'c world \<Rightarrow> nat" where
  "repo_calls w = length (filter is_repo_call (trace w))"

definition cache_sets :: "'c world \<Rightarrow> event list" where
  "cache_sets w = filter is_cache_set (trace w)"

text \<open>The miss path: the trace before the repository call.\<close>

definition before_repo :: "string \<Rightarrow> bool \<Rightarrow> 'a switched \<Rightarrow> 'c world \<Rightarrow> 'c world" where
  "before_repo cacheKey found sw w =
     (if found \<and> sw = Default
      then emit (Logged (mismatch_msg cacheKey)) (emit (CacheGet cacheKey) w)
      else emit (CacheGet cacheKey) w)"

text \<open>
  Sample collaborators: a repository whose three methods fail with the error of the
  service tests, a repository that answers, an empty in-process cache, and the range and
  user of the service tests.
\<close>

definition database_error :: err where
  "database_error = Err ''database error''"

definition failing_repo :: TransactionRepositoryInterface where
  "failing_repo =
     \<lparr>repo_CalculateGGR = (\<lambda>f t. Returns [] (Some database_error)),
      repo_CalculateDailyWagerVolume = (\<lambda>f t. Returns [] (Some database_error)),
      repo_CalculateUserWagerPercentile = (\<lambda>u f t. Returns (Finite 0) (Some database_error))\<rparr>"

definition sample_row :: gomap where
  "sample_row = [(''currency'', VString ''BTC''), (''ggr'', VString ''10.50'')]"

definition answering_repo :: TransactionRepositoryInterface where
  "answering_repo =
     \<lparr>repo_CalculateGGR = (\<lambda>f t. Returns [Some sample_row] None),
      repo_CalculateDailyWagerVolume = (\<lambda>f t. Returns [Some sample_row] None),
      repo_CalculateUserWagerPercentile = (\<lambda>u f t. Returns (Finite (191 / 2)) None)\<rparr>"

definition empty_world :: "MemoryCache world" where
  "empty_world = \<lparr>cache_state = NewMemoryCache, trace = []\<rparr>"

definition from0 :: gotime where
  "from0 = Date 2023 1 1 0 0 0 0"

definition to0 :: gotime where
  "to0 = Date 2023 1 31 0 0 0 0"

definition user0 :: string where
  "user0 = ''01HRMD5HGTZB3TW3PGYXRD07CQT''"

text \<open>
  A sample of \<^verbatim>\<open>strconv.ParseFloat\<close>: it accepts an optional sign, decimal digits and
  an optional fraction, and returns the nearest \<^verbatim>\<open>float64\<close>; everything else it
  rejects.
\<close>

definition is_digit :: "char \<Rightarrow> bool" where
  "is_digit c = (c \<in> set ''0123456789'')"

definition digits_value :: "string \<Rightarrow> nat" where
  "digits_value cs = foldl (\<lambda>a c. 10 * a + (of_char c - 48)) 0 cs"

definition ParseFloat_decimal :: "string \<Rightarrow> float64 option" where
  "ParseFloat_decimal s =
     (let (neg, body) =
            (case s of
               [] \<Rightarrow> (False, [])
             | c # r \<Rightarrow> if c = CHR ''-'' then (True, r)
                        else if c = CHR ''+'' then (False, r) else (False, s));
          ip = takeWhile is_digit body;
          rest = dropWhile is_digit body;
          fp = (case rest of
                  [] \<Rightarrow> Some []
                | c # r \<Rightarrow> if c = CHR ''.'' \<and> list_all is_digit r then Some r else None)
      in case fp of
           None \<Rightarrow> None
         | Some f \<Rightarrow>
             if ip = [] \<and> f = [] then None
             else Some (Finite (fl ((if neg then - 1 else 1)
                                    * of_nat (digits_value (ip @ f)) / 10 ^ length f))))"

text \<open>An in-process cache holding one entry, stored at clock reading 0 for five minutes.\<close>

definition cached_world :: "string \<Rightarrow> val \<Rightarrow> MemoryCache world" where
  "cached_world key v =
     \<lparr>cache_state = mc_Set NewMemoryCache 0 key v fiveMinutes, trace = []\<rparr>"

text \<open>
  A sample Redis library: the backend is a map from keys to stored strings, and the codec
  covers the JSON literals only and rejects every other value.
\<close>

definition sample_lib :: "(string \<rightharpoonup> string) RedisLib" where
  "sample_lib =
     \<lparr>client_Get = (\<lambda>b now key. case b key of None \<Rightarrow> Inl (Err ''redis: nil'') | Some s \<Rightarrow> Inr s),
      client_Set = (\<lambda>b now key data d. b(key \<mapsto> data)),
      client_Del = (\<lambda>b now key. b(key := None)),
      json_Marshal = (\<lambda>v. case v of
                            VNil \<Rightarrow> Inr ''null''
                          | VBool x \<Rightarrow> Inr (if x then ''true'' else ''false'')
                          | VFloat x \<Rightarrow> Inl (Err ''json: unsupported value'')
                          | _ \<Rightarrow> Inl (Err ''outside this sample'')),
      json_Unmarshal = (\<lambda>s. if s = ''null'' then Inr VNil
                             else if s = ''true'' then Inr (VBool True)
                             else if s = ''false'' then Inr (VBool False)
                             else Inl (Err ''invalid character''))\<rparr>"

text \<open>A cached generic sequence with one map and two elements that are not maps.\<close>

definition mixed_slice :: val where
  "mixed_slice = VSlice [VMap sample_row, VString ''BTC'', VNil]"

text \<open>A backend holding, under one key, a string that is not JSON.\<close>

definition sample_backend :: "string \<rightharpoonup> string" where
  "sample_backend = [''bad'' \<mapsto> ''{'']"

text \<open>
  The lower bound of the test range as the same instant at offset +01:00, and as an
  instant 500 nanoseconds later at the same offset.
\<close>

definition from0_plus1h :: gotime where
  "from0_plus1h = Date 2023 1 1 1 0 0 3600"

definition from0_later :: gotime where
  "from0_later = from0\<lparr>unixNano := unixNano from0 + 500\<rparr>"

text \<open>
  The subject is at 1-indexed rank \<open>r\<close> of the ranked documents: the \<open>r - 1\<close> documents
  before it carry the ids of other users, and document \<open>r\<close> carries the subject's id.
\<close>

definition other_user :: "string \<Rightarrow> gomap \<Rightarrow> bool" where
  "other_user userID d =
     (case map_of d ''_id'' of Some (VString s) \<Rightarrow> s \<noteq> userID | _ \<Rightarrow> False)"

definition is_user :: "string \<Rightarrow> gomap \<Rightarrow> bool" where
  "is_user userID d = (map_of d ''_id'' = Some (VString userID))"

definition ranked_at :: "string \<Rightarrow> gomap list \<Rightarrow> nat \<Rightarrow> bool" where
  "ranked_at userID ranked r =
     (1 \<le> r \<and> r \<le> length ranked \<and> list_all (other_user userID) (take (r - 1) ranked)
      \<and> is_user userID (ranked ! (r - 1)))"

text \<open>
  A sample collection: five users with the ranked totals 100, 80, 50, 50 and 10, and a
  repository whose percentile method is the repository's computation on a collection
  (its two other methods, which are not modelled, answer with no rows).
\<close>

definition wager_doc :: "string \<Rightarrow> string \<Rightarrow> gomap" where
  "wager_doc userID amount = [(''_id'', VString userID), (''totalWagerUSD'', VOther amount)]"

definition ranked5 :: "gomap list" where
  "ranked5 = [wager_doc ''u1'' ''100'', wager_doc ''u2'' ''80'', wager_doc ''u3'' ''50'',
              wager_doc ''u4'' ''50'', wager_doc ''u5'' ''10'']"

definition sample_collection :: "pipeline \<Rightarrow> answer" where
  "sample_collection p =
     (case p of
        UserWagerPipeline userID f t \<Rightarrow> Docs (filter (is_user userID) ranked5)
      | AllUsersPipeline f t \<Rightarrow> Docs ranked5)"

definition percentile_repo :: "(pipeline \<Rightarrow> answer) \<Rightarrow> TransactionRepositoryInterface" where
  "percentile_repo collection =
     \<lparr>repo_CalculateGGR = (\<lambda>f t. Returns [] None),
      repo_CalculateDailyWagerVolume = (\<lambda>f t. Returns [] None),
      repo_CalculateUserWagerPercentile =
        TransactionRepository_CalculateUserWagerPercentile collection\<rparr>"

text \<open>
  A collection read at two moments: the first pipeline still sees a wager of user u9,
  the ranking no longer lists that user.
\<close>

definition stale_collection :: "pipeline \<Rightarrow> answer" where
  "stale_collection p =
     (case p of
        UserWagerPipeline userID f t \<Rightarrow> Docs [wager_doc ''u9'' ''5'']
      | AllUsersPipeline f t \<Rightarrow> Docs [wager_doc ''u1'' ''100''])"




text \<open>
  A history of the in-process cache: calls of Set and Delete and passes of the sweep,
  each with the clock reading at which it runs, applied in order.
\<close>

datatype mc_op = Set_op string val duration | Delete_op string | Cleanup_op

fun mc_step :: "MemoryCache \<Rightarrow> instant \<times> mc_op \<Rightarrow> MemoryCache" where
  "mc_step c (now, Set_op key v d) = mc_Set c now key v d"
| "mc_step c (now, Delete_op key) = mc_Delete c key"
| "mc_step c (now, Cleanup_op) = mc_cleanup c now"

definition mc_run :: "MemoryCache \<Rightarrow> (instant \<times> mc_op) list \<Rightarrow> MemoryCache" where
  "mc_run c ops = foldl mc_step c ops"

definition sets_key :: "string \<Rightarrow> mc_op \<Rightarrow> bool" where
  "sets_key key op = (case op of Set_op k v d \<Rightarrow> k = key | _ \<Rightarrow> False)"

definition touches_key :: "string \<Rightarrow> mc_op \<Rightarrow> bool" where
  "touches_key key op =
     (case op of Set_op k v d \<Rightarrow> k = key | Delete_op k \<Rightarrow> k = key | Cleanup_op \<Rightarrow> False)"

definition other_keys_until :: "string \<Rightarrow> instant \<Rightarrow> (instant \<times> mc_op) list \<Rightarrow> bool" where
  "other_keys_until key now' ops = list_all (\<lambda>(t, op). \<not> touches_key key op \<and> t \<le> now') ops"

definition never_sets :: "string \<Rightarrow> (instant \<times> mc_op) list \<Rightarrow> bool" where
  "never_sets key ops = list_all (\<lambda>(t, op). \<not> sets_key key op) ops"

text \<open>An in-process cache holding two keys, and a history that leaves the key k alone.\<close>

definition busy_cache :: MemoryCache where
  "busy_cache = mc_Set (mc_Set NewMemoryCache 0 ''j'' (VInt 1) 10) 0 ''k'' (VInt 6) 10"

definition other_key_ops :: "(instant \<times> mc_op) list" where
  "other_key_ops = [(2, Delete_op ''j''), (3, Set_op ''j'' (VInt 2) 5), (4, Cleanup_op)]"

section \<open>Rounding lemmas\<close>

lemma bitlen_rat_bounds:
  assumes "0 < a"
  shows "2 powi (bitlen a - 1) \<le> (of_int a :: rat)" and "(of_int a :: rat) < 2 powi (bitlen a)"
proof -
  from assms have b1: "1 \<le> bitlen a" by (auto simp: bitlen_alt_def)
  from bitlen_bounds [OF assms]
  have lo: "2 ^ nat (bitlen a - 1) \<le> a" and hi: "a < 2 ^ nat (bitlen a)" by auto
  from lo have "(of_int (2 ^ nat (bitlen a - 1)) :: rat) \<le> of_int a"
    by (simp only: of_int_le_iff)
  then show "2 powi (bitlen a - 1) \<le> (of_int a :: rat)"
    using b1 by (simp add: power_int_def)
  from hi have "(of_int a :: rat) < of_int (2 ^ nat (bitlen a))"
    by (simp only: of_int_less_iff)
  then show "(of_int a :: rat) < 2 powi (bitlen a)"
    using b1 by (simp add: power_int_def)
qed

lemma ilog2_bounds:
  assumes "0 < x"
  shows "2 powi (ilog2 x) \<le> x" and "x < 2 powi (ilog2 x + 1)"
proof -
  obtain a b where q: "quotient_of x = (a, b)" by (cases "quotient_of x")
  then have bpos: "0 < b" and xab: "x = of_int a / of_int b"
    by (simp_all add: quotient_of_denom_pos quotient_of_div)
  from assms xab bpos have apos: "0 < a"
    by (simp add: zero_less_divide_iff)
  define d where "d = bitlen a - bitlen b"
  have bq: "0 < (of_int b :: rat)" using bpos by simp
  have up: "x < 2 powi (d + 1)"
  proof -
    have "x < 2 powi (bitlen a) / of_int b"
      unfolding xab using bitlen_rat_bounds(2) [OF apos] bq by (simp add: divide_strict_right_mono)
    also have "\<dots> \<le> 2 powi (bitlen a) / 2 powi (bitlen b - 1)"
      using bitlen_rat_bounds(1) [OF bpos] by (simp add: frac_le)
    also have "\<dots> = 2 powi (d + 1)"
      by (simp add: d_def power_int_diff [symmetric] algebra_simps)
    finally show ?thesis .
  qed
  have lo: "2 powi (d - 1) \<le> x"
  proof -
    have "2 powi (d - 1) = 2 powi (bitlen a - 1) / (2 powi (bitlen b) :: rat)"
      by (simp add: d_def power_int_diff [symmetric] algebra_simps)
    also have "\<dots> \<le> of_int a / 2 powi (bitlen b)"
      using bitlen_rat_bounds(1) [OF apos] by (simp add: divide_right_mono)
    also have "\<dots> \<le> of_int a / of_int b"
      using bitlen_rat_bounds(2) [OF bpos] apos bq by (simp add: frac_le)
    finally show ?thesis by (simp add: xab)
  qed
  have il: "ilog2 x = (if 2 powi d \<le> x then d else d - 1)"
    by (simp add: ilog2_def q d_def Let_def)
  show "2 powi (ilog2 x) \<le> x" using lo by (simp add: il)
  show "x < 2 powi (ilog2 x + 1)" using up by (auto simp add: il)
qed

lemma ilog2_mono:
  assumes "0 < x" "x \<le> y"
  shows "ilog2 x \<le> ilog2 y"
proof (rule ccontr)
  assume "\<not> ilog2 x \<le> ilog2 y"
  then have "ilog2 y + 1 \<le> ilog2 x" by simp
  then have "(2::rat) powi (ilog2 y + 1) \<le> 2 powi (ilog2 x)"
    by (simp add: power_int_increasing)
  moreover have "y < 2 powi (ilog2 y + 1)" using assms by (intro ilog2_bounds) simp
  moreover have "2 powi (ilog2 x) \<le> x" using assms by (intro ilog2_bounds)
  ultimately show False using assms by simp
qed

lemma rne_of_int: "rne (of_int n) = n"
  by (simp add: rne_def)

lemma rne_cases: "rne y = \<lfloor>y\<rfloor> \<or> rne y = \<lfloor>y\<rfloor> + 1"
  by (simp add: rne_def Let_def)

lemma rne_mono:
  assumes "y \<le> z"
  shows "rne y \<le> rne z"
proof (cases "\<lfloor>y\<rfloor> = \<lfloor>z\<rfloor>")
  case True
  with assms show ?thesis by (auto simp add: rne_def Let_def)
next
  case False
  with assms have "\<lfloor>y\<rfloor> + 1 \<le> \<lfloor>z\<rfloor>" using floor_mono [of y z] by simp
  moreover have "rne y \<le> \<lfloor>y\<rfloor> + 1" using rne_cases [of y] by auto
  moreover have "\<lfloor>z\<rfloor> \<le> rne z" using rne_cases [of z] by auto
  ultimately show ?thesis by simp
qed

lemma fl_pos_range:
  assumes "0 < x"
  shows "2 powi (ilog2 x) \<le> fl_pos x" and "fl_pos x \<le> 2 powi (ilog2 x + 1)"
proof -
  define u :: rat where "u = 2 powi (ilog2 x - 52)"
  have upos: "0 < u" by (simp add: u_def)
  have e1: "(2::rat) powi (ilog2 x) = 2 ^ 52 * u"
    by (simp add: u_def power_int_diff)
  have e2: "(2::rat) powi (ilog2 x + 1) = 2 ^ 53 * u"
    by (simp add: u_def power_int_diff power_int_add)
  have "2 ^ 52 * u \<le> x" using ilog2_bounds(1) [OF assms] by (simp add: e1)
  then have "of_int (2 ^ 52) \<le> x / u" using upos by (simp add: pos_le_divide_eq)
  then have "rne (of_int (2 ^ 52)) \<le> rne (x / u)" by (rule rne_mono)
  then have lo: "2 ^ 52 \<le> rne (x / u)" by (simp only: rne_of_int)
  have "x \<le> 2 ^ 53 * u" using ilog2_bounds(2) [OF assms] by (simp add: e2)
  then have "x / u \<le> of_int (2 ^ 53)" using upos by (simp add: pos_divide_le_eq)
  then have "rne (x / u) \<le> rne (of_int (2 ^ 53))" by (rule rne_mono)
  then have hi: "rne (x / u) \<le> 2 ^ 53" by (simp only: rne_of_int)
  have fp: "fl_pos x = of_int (rne (x / u)) * u" by (simp add: fl_pos_def u_def Let_def)
  from lo have "(of_int (2 ^ 52) :: rat) \<le> of_int (rne (x / u))" by (simp only: of_int_le_iff)
  then have "2 ^ 52 * u \<le> of_int (rne (x / u)) * u" using upos by simp
  then show "2 powi (ilog2 x) \<le> fl_pos x" by (simp add: e1 fp)
  from hi have "(of_int (rne (x / u)) :: rat) \<le> of_int (2 ^ 53)" by (simp only: of_int_le_iff)
  then have "of_int (rne (x / u)) * u \<le> 2 ^ 53 * u" using upos by simp
  then show "fl_pos x \<le> 2 powi (ilog2 x + 1)" by (simp add: e2 fp)
qed

lemma fl_pos_mono:
  assumes "0 < x" "x \<le> y"
  shows "fl_pos x \<le> fl_pos y"
proof (cases "ilog2 x = ilog2 y")
  case True
  define u :: rat where "u = 2 powi (ilog2 y - 52)"
  have upos: "0 < u" by (simp add: u_def)
  from assms upos have "x / u \<le> y / u" by (simp add: divide_right_mono)
  then have "rne (x / u) \<le> rne (y / u)" by (rule rne_mono)
  then have "(of_int (rne (x / u)) :: rat) \<le> of_int (rne (y / u))" by (simp only: of_int_le_iff)
  then have "of_int (rne (x / u)) * u \<le> of_int (rne (y / u)) * u" using upos by simp
  then show ?thesis by (simp add: fl_pos_def True u_def Let_def)
next
  case False
  from assms have ypos: "0 < y" by simp
  from False ilog2_mono [OF assms] have "ilog2 x + 1 \<le> ilog2 y" by simp
  then have "(2::rat) powi (ilog2 x + 1) \<le> 2 powi (ilog2 y)"
    by (simp add: power_int_increasing)
  with fl_pos_range(2) [OF assms(1)] fl_pos_range(1) [OF ypos] show ?thesis by simp
qed

lemma fl_pos_pos: "0 < x \<Longrightarrow> 0 < fl_pos x"
proof -
  assume a: "0 < x"
  have "(0::rat) < 2 powi (ilog2 x)" by simp
  from this fl_pos_range(1) [OF a] show ?thesis by (rule less_le_trans)
qed

lemma fl_nonneg: "0 \<le> x \<Longrightarrow> 0 \<le> fl x"
  using fl_pos_pos [of x] by (auto simp add: fl_def)

lemma fl_mono:
  assumes "0 \<le> x" "x \<le> y"
  shows "fl x \<le> fl y"
proof (cases "x = 0")
  case True
  with assms fl_nonneg [of y] show ?thesis by (simp add: fl_def)
next
  case False
  with assms have "0 < x" by simp
  with assms fl_pos_mono [of x y] show ?thesis by (simp add: fl_def)
qed

lemma fl_of_int_exact:
  assumes "0 \<le> n" "n \<le> 2 ^ 53"
  shows "fl (of_int n) = of_int n"
proof (cases "n = 0")
  case True
  then show ?thesis by (simp add: fl_def)
next
  case False
  with assms have npos: "0 < n" by simp
  define x :: rat where "x = of_int n"
  have xpos: "0 < x" using npos by (simp add: x_def)
  define e where "e = ilog2 x"
  have lo: "2 powi e \<le> x" unfolding e_def using ilog2_bounds(1) [OF xpos] .
  have "(of_int n :: rat) \<le> of_int (2 ^ 53)" using assms(2) by (simp only: of_int_le_iff)
  then have hi: "x \<le> 2 ^ 53" by (simp add: x_def)
  have e53: "e \<le> 53"
  proof (rule ccontr)
    assume "\<not> e \<le> 53"
    then have "54 \<le> e" by simp
    then have "(2::rat) powi 54 \<le> 2 powi e" by (intro power_int_increasing) simp_all
    with lo hi show False by simp
  qed
  have fp: "fl_pos x = of_int (rne (x / 2 powi (e - 52))) * 2 powi (e - 52)"
    by (simp add: fl_pos_def Let_def e_def)
  have "fl_pos x = x"
  proof (cases "e = 53")
    case True
    from True lo hi have x53: "x = 2 ^ 53" by simp
    have u: "(2::rat) powi (e - 52) = 2" using True by simp
    have "x / 2 = of_int (2 ^ 52)" by (simp add: x53)
    then have "rne (x / 2) = 2 ^ 52" by (simp only: rne_of_int)
    then have "fl_pos x = of_int (2 ^ 52) * 2" by (simp only: fp u)
    then show ?thesis by (simp add: x53)
  next
    case False
    with e53 have le: "e \<le> 52" by simp
    define k where "k = nat (52 - e)"
    have u: "(2::rat) powi (e - 52) = 1 / 2 ^ k"
      using le by (simp add: k_def power_int_def field_simps)
    have "x / (1 / 2 ^ k) = of_int (n * 2 ^ k)" by (simp add: x_def)
    then have "rne (x / (1 / 2 ^ k)) = n * 2 ^ k" by (simp only: rne_of_int)
    then have "fl_pos x = of_int (n * 2 ^ k) * (1 / 2 ^ k)" by (simp only: fp u)
    then show ?thesis by (simp add: x_def)
  qed
  then show ?thesis using xpos by (simp add: fl_def x_def)
qed


section \<open>Properties of the in-process cache\<close>

text \<open>
  C2. Lazy expiration: for every key whose stored entry has an expiration earlier than the
  current clock reading, Get returns (nil, false), whatever the cache state is, that is
  whether or not a sweep or a Delete has run.
\<close>

theorem mc_Get_expired:
  "items c key = Some item \<Longrightarrow> expiration item < now \<Longrightarrow> mc_Get c now key = (VNil, False)"
  by (simp add: mc_Get_def)

theorem mc_Get_expired_witness:
  "items (mc_Set NewMemoryCache 0 ''k'' (VInt 7) 1000) ''k''
      = Some \<lparr>item_value = VInt 7, expiration = 1000\<rparr>
   \<and> expiration \<lparr>item_value = VInt 7, expiration = 1000\<rparr> < 2000
   \<and> mc_Get (mc_Set NewMemoryCache 0 ''k'' (VInt 7) 1000) 2000 ''k'' = (VNil, False)"
proof -
  have h1: "items (mc_Set NewMemoryCache 0 ''k'' (VInt 7) 1000) ''k''
      = Some \<lparr>item_value = VInt 7, expiration = 1000\<rparr>"
    by (simp add: mc_Set_def NewMemoryCache_def)
  have h2: "expiration \<lparr>item_value = VInt 7, expiration = 1000\<rparr> < 2000" by simp
  from mc_Get_expired [OF h1 h2] h1 h2 show ?thesis by simp
qed

text \<open>
  The background sweep cannot be observed through Get: at any clock reading not before
  the sweep, Get answers the same with and without it.
\<close>

lemma mc_cleanup_unobservable:
  "t \<le> now \<Longrightarrow> mc_Get (mc_cleanup c t) now key = mc_Get c now key"
  by (simp add: mc_Get_def mc_cleanup_def split: option.splits)

lemma mc_step_keeps_entry:
  assumes "items c key = Some item" "now' \<le> expiration item"
    and "\<not> touches_key key op" "t \<le> now'"
  shows "items (mc_step c (t, op)) key = Some item"
  using assms
  by (cases op) (auto simp add: touches_key_def mc_Set_def mc_Delete_def mc_cleanup_def)

lemma mc_run_keeps_entry:
  assumes "items c key = Some item" "now' \<le> expiration item"
    and "other_keys_until key now' ops"
  shows "items (mc_run c ops) key = Some item"
  using assms
proof (induction ops arbitrary: c)
  case Nil
  then show ?case by (simp add: mc_run_def)
next
  case (Cons x ops)
  obtain t op where x: "x = (t, op)" by (cases x)
  from Cons.prems x have h: "\<not> touches_key key op" "t \<le> now'" "other_keys_until key now' ops"
    by (simp_all add: other_keys_until_def)
  from mc_step_keeps_entry [OF Cons.prems(1,2) h(1,2)]
  have "items (mc_step c (t, op)) key = Some item" .
  from Cons.IH [OF this Cons.prems(2) h(3)] show ?case by (simp add: mc_run_def x)
qed

lemma mc_step_keeps_absent:
  assumes "items c key = None" "\<not> sets_key key op"
  shows "items (mc_step c (t, op)) key = None"
  using assms
  by (cases op) (auto simp add: sets_key_def mc_Set_def mc_Delete_def mc_cleanup_def)

lemma mc_run_keeps_absent:
  assumes "items c key = None" "never_sets key ops"
  shows "items (mc_run c ops) key = None"
  using assms
proof (induction ops arbitrary: c)
  case Nil
  then show ?case by (simp add: mc_run_def)
next
  case (Cons x ops)
  obtain t op where x: "x = (t, op)" by (cases x)
  from Cons.prems x have h: "\<not> sets_key key op" "never_sets key ops"
    by (simp_all add: never_sets_def)
  from mc_step_keeps_absent [OF Cons.prems(1) h(1)]
  have "items (mc_step c (t, op)) key = None" .
  from Cons.IH [OF this h(2)] show ?case by (simp add: mc_run_def x)
qed

text \<open>
  C10. Round trip: after Set(key, value, ttl), a Get at a clock reading not after the
  expiration returns (value, true), also after any sequence of operations on other keys
  and of sweeps run up to that reading; after Delete(key), a Get returns (nil, false),
  also after any sequence of operations that does not Set that key; a Set, a Delete and
  a sweep leave the answers for every other key as they were; and a Set on an existing
  key replaces the previous entry.
\<close>

theorem mc_round_trip:
  "(now' \<le> now + ttl \<longrightarrow> mc_Get (mc_Set c now key v ttl) now' key = (v, True))
   \<and> mc_Get (mc_Delete c key) now' key = (VNil, False)
   \<and> (key' \<noteq> key \<longrightarrow> mc_Get (mc_Set (mc_Delete c key) now key' v ttl) now' key = (VNil, False))
   \<and> mc_Set (mc_Set c now0 key v0 ttl0) now key v ttl = mc_Set c now key v ttl
   \<and> (now' \<le> now + ttl \<and> other_keys_until key now' ops
        \<longrightarrow> mc_Get (mc_run (mc_Set c now key v ttl) ops) now' key = (v, True))
   \<and> (never_sets key ops \<longrightarrow> mc_Get (mc_run (mc_Delete c key) ops) now' key = (VNil, False))
   \<and> (key' \<noteq> key \<longrightarrow> mc_Get (mc_Set c now key' v ttl) now' key = mc_Get c now' key)
   \<and> (key' \<noteq> key \<longrightarrow> mc_Get (mc_Delete c key') now' key = mc_Get c now' key)
   \<and> (t \<le> now' \<longrightarrow> mc_Get (mc_cleanup c t) now' key = mc_Get c now' key)"
proof (intro conjI impI)
  assume a: "now' \<le> now + ttl \<and> other_keys_until key now' ops"
  have "items (mc_Set c now key v ttl) key = Some \<lparr>item_value = v, expiration = now + ttl\<rparr>"
    by (simp add: mc_Set_def)
  from mc_run_keeps_entry [OF this _ a [THEN conjunct2]] a
  have "items (mc_run (mc_Set c now key v ttl) ops) key
          = Some \<lparr>item_value = v, expiration = now + ttl\<rparr>" by simp
  with a show "mc_Get (mc_run (mc_Set c now key v ttl) ops) now' key = (v, True)"
    by (simp add: mc_Get_def)
next
  assume a: "never_sets key ops"
  have "items (mc_Delete c key) key = None" by (simp add: mc_Delete_def)
  from mc_run_keeps_absent [OF this a]
  show "mc_Get (mc_run (mc_Delete c key) ops) now' key = (VNil, False)"
    by (simp add: mc_Get_def)
next
  assume "t \<le> now'"
  then show "mc_Get (mc_cleanup c t) now' key = mc_Get c now' key"
    by (rule mc_cleanup_unobservable)
qed (simp_all add: mc_Get_def mc_Set_def mc_Delete_def)

theorem mc_round_trip_witness:
  "(5::int) \<le> 1 + 10
   \<and> other_keys_until ''k'' 5 other_key_ops
   \<and> never_sets ''k'' other_key_ops
   \<and> mc_Get busy_cache 5 ''k'' = (VInt 6, True)
   \<and> mc_Get busy_cache 5 ''j'' = (VInt 1, True)
   \<and> mc_Get (mc_Set busy_cache 1 ''k'' (VInt 7) 10) 5 ''k'' = (VInt 7, True)
   \<and> mc_Get (mc_run (mc_Set busy_cache 1 ''k'' (VInt 7) 10) other_key_ops) 5 ''k'' = (VInt 7, True)
   \<and> mc_Get (mc_Delete busy_cache ''k'') 5 ''k'' = (VNil, False)
   \<and> mc_Get (mc_run (mc_Delete busy_cache ''k'') other_key_ops) 5 ''k'' = (VNil, False)
   \<and> ''j'' \<noteq> ''k''
   \<and> mc_Get (mc_Delete busy_cache ''j'') 5 ''k'' = (VInt 6, True)
   \<and> mc_Get (mc_Set busy_cache 1 ''j'' (VInt 7) 10) 5 ''k'' = (VInt 6, True)"
proof -
  have a: "(5::int) \<le> 1 + 10" by simp
  have b: "other_keys_until ''k'' 5 other_key_ops"
    by (simp add: other_keys_until_def other_key_ops_def touches_key_def)
  have c: "never_sets ''k'' other_key_ops"
    by (simp add: never_sets_def other_key_ops_def sets_key_def)
  have d: "mc_Get busy_cache 5 ''k'' = (VInt 6, True)" "mc_Get busy_cache 5 ''j'' = (VInt 1, True)"
    by (simp_all add: busy_cache_def mc_Get_def mc_Set_def NewMemoryCache_def)
  have e: "''j'' \<noteq> ''k''" by simp
  from mc_round_trip
    [where now' = 5 and now = 1 and ttl = 10 and c = busy_cache and key = "''k''"
       and v = "VInt 7" and key' = "''j''" and ops = other_key_ops]
    a b c d e
  show ?thesis by simp
qed


section \<open>Properties of the computation service\<close>

lemma CalculateGGR_hit:
  assumes "cache_Get cache (cache_state w) tget (ggr_key tfrom tto) = (v, True)"
    and "rows_switch v = Hit data"
  shows "CalculateGGR cache repo tget tset w tfrom tto
           = (Returns data None, emit (CacheGet (ggr_key tfrom tto)) w)"
  using assms by (simp add: CalculateGGR_def Let_def)

lemma CalculateDailyWagerVolume_hit:
  assumes "cache_Get cache (cache_state w) tget (daily_wager_key tfrom tto) = (v, True)"
    and "rows_switch v = Hit data"
  shows "CalculateDailyWagerVolume cache repo tget tset w tfrom tto
           = (Returns data None, emit (CacheGet (daily_wager_key tfrom tto)) w)"
  using assms by (simp add: CalculateDailyWagerVolume_def Let_def)

lemma CalculateUserWagerPercentile_hit:
  assumes "cache_Get cache (cache_state w) tget (percentile_key userID tfrom tto) = (v, True)"
    and "percentile_switch pf v = Hit data"
  shows "CalculateUserWagerPercentile pf cache repo tget tset w userID tfrom tto
           = (Returns data None, emit (CacheGet (percentile_key userID tfrom tto)) w)"
  using assms by (simp add: CalculateUserWagerPercentile_def Let_def)

lemma CalculateGGR_miss:
  assumes "cache_Get cache (cache_state w) tget (ggr_key tfrom tto) = (v, found)"
    and "\<not> (found \<and> is_hit (rows_switch v))"
  shows "CalculateGGR cache repo tget tset w tfrom tto =
     (let cacheKey = ggr_key tfrom tto;
          w3 = emit (RepoGGR tfrom tto) (before_repo cacheKey found (rows_switch v) w)
      in case repo_CalculateGGR repo tfrom tto of
           Panics \<Rightarrow> (Panics, w3)
         | Returns results (Some e) \<Rightarrow> (Returns [] (Some e), w3)
         | Returns results None \<Rightarrow>
             (Returns results None,
              emit (CacheSet cacheKey (VRows results) fiveMinutes)
                (w3\<lparr>cache_state :=
                      cache_Set cache (cache_state w3) tset cacheKey (VRows results) fiveMinutes\<rparr>)))"
  using assms
  by (cases "rows_switch v"; cases found)
     (simp_all add: CalculateGGR_def Let_def is_hit_def before_repo_def)

lemma CalculateDailyWagerVolume_miss:
  assumes "cache_Get cache (cache_state w) tget (daily_wager_key tfrom tto) = (v, found)"
    and "\<not> (found \<and> is_hit (rows_switch v))"
  shows "CalculateDailyWagerVolume cache repo tget tset w tfrom tto =
     (let cacheKey = daily_wager_key tfrom tto;
          w3 = emit (RepoDaily tfrom tto) (before_repo cacheKey found (rows_switch v) w)
      in case repo_CalculateDailyWagerVolume repo tfrom tto of
           Panics \<Rightarrow> (Panics, w3)
         | Returns results (Some e) \<Rightarrow> (Returns [] (Some e), w3)
         | Returns results None \<Rightarrow>
             (Returns results None,
              emit (CacheSet cacheKey (VRows results) fiveMinutes)
                (w3\<lparr>cache_state :=
                      cache_Set cache (cache_state w3) tset cacheKey (VRows results) fiveMinutes\<rparr>)))"
  using assms
  by (cases "rows_switch v"; cases found)
     (simp_all add: CalculateDailyWagerVolume_def Let_def is_hit_def before_repo_def)

lemma CalculateUserWagerPercentile_miss:
  assumes "cache_Get cache (cache_state w) tget (percentile_key userID tfrom tto) = (v, found)"
    and "\<not> (found \<and> is_hit (percentile_switch pf v))"
  shows "CalculateUserWagerPercentile pf cache repo tget tset w userID tfrom tto =
     (let cacheKey = percentile_key userID tfrom tto;
          w3 = emit (RepoPercentile userID tfrom tto)
                 (before_repo cacheKey found (percentile_switch pf v) w)
      in case repo_CalculateUserWagerPercentile repo userID tfrom tto of
           Panics \<Rightarrow> (Panics, w3)
         | Returns percentile (Some e) \<Rightarrow> (Returns (Finite 0) (Some e), w3)
         | Returns percentile None \<Rightarrow>
             (Returns percentile None,
              emit (CacheSet cacheKey (VFloat percentile) fiveMinutes)
                (w3\<lparr>cache_state :=
                      cache_Set cache (cache_state w3) tset cacheKey (VFloat percentile)
                        fiveMinutes\<rparr>)))"
  using assms
  by (cases "percentile_switch pf v"; cases found)
     (simp_all add: CalculateUserWagerPercentile_def Let_def is_hit_def before_repo_def)

lemma before_repo_state [simp]: "cache_state (before_repo k found sw w) = cache_state w"
  by (simp add: before_repo_def emit_def)

lemma before_repo_sets [simp]: "cache_sets (before_repo k found sw w) = cache_sets w"
  by (simp add: before_repo_def emit_def cache_sets_def is_cache_set_def)

lemma before_repo_calls [simp]: "repo_calls (before_repo k found sw w) = repo_calls w"
  by (simp add: before_repo_def emit_def repo_calls_def is_repo_call_def)

lemma emit_state [simp]: "cache_state (emit e w) = cache_state w"
  by (simp add: emit_def)

text \<open>
  C3. For each of the three operations, when the repository is called (the cache missed
  or the cached value did not reconstruct) and returns an error, the operation returns
  exactly that error with the zero value of its result, the cache state is unchanged and
  the trace gains no call of the cache's Set.
\<close>

theorem repository_error_passthrough:
  "(cache_Get cache (cache_state w) tget (ggr_key tfrom tto) = (v, found)
      \<and> \<not> (found \<and> is_hit (rows_switch v))
      \<and> repo_CalculateGGR repo tfrom tto = Returns x (Some e)
    \<longrightarrow> fst (CalculateGGR cache repo tget tset w tfrom tto) = Returns [] (Some e)
        \<and> cache_state (snd (CalculateGGR cache repo tget tset w tfrom tto)) = cache_state w
        \<and> cache_sets (snd (CalculateGGR cache repo tget tset w tfrom tto)) = cache_sets w)
   \<and> (cache_Get cache (cache_state w) tget (daily_wager_key tfrom tto) = (v, found)
      \<and> \<not> (found \<and> is_hit (rows_switch v))
      \<and> repo_CalculateDailyWagerVolume repo tfrom tto = Returns x (Some e)
    \<longrightarrow> fst (CalculateDailyWagerVolume cache repo tget tset w tfrom tto) = Returns [] (Some e)
        \<and> cache_state (snd (CalculateDailyWagerVolume cache repo tget tset w tfrom tto)) = cache_state w
        \<and> cache_sets (snd (CalculateDailyWagerVolume cache repo tget tset w tfrom tto)) = cache_sets w)
   \<and> (cache_Get cache (cache_state w) tget (percentile_key userID tfrom tto) = (v, found)
      \<and> \<not> (found \<and> is_hit (percentile_switch pf v))
      \<and> repo_CalculateUserWagerPercentile repo userID tfrom tto = Returns y (Some e)
    \<longrightarrow> fst (CalculateUserWagerPercentile pf cache repo tget tset w userID tfrom tto)
          = Returns (Finite 0) (Some e)
        \<and> cache_state (snd (CalculateUserWagerPercentile pf cache repo tget tset w userID tfrom tto))
          = cache_state w
        \<and> cache_sets (snd (CalculateUserWagerPercentile pf cache repo tget tset w userID tfrom tto))
          = cache_sets w)"
proof (intro conjI impI)
  assume a: "cache_Get cache (cache_state w) tget (ggr_key tfrom tto) = (v, found)
      \<and> \<not> (found \<and> is_hit (rows_switch v))
      \<and> repo_CalculateGGR repo tfrom tto = Returns x (Some e)"
  then have eq: "CalculateGGR cache repo tget tset w tfrom tto
      = (Returns [] (Some e),
         emit (RepoGGR tfrom tto) (before_repo (ggr_key tfrom tto) found (rows_switch v) w))"
    using CalculateGGR_miss [of cache w tget tfrom tto v found repo tset] by (simp add: Let_def)
  show "fst (CalculateGGR cache repo tget tset w tfrom tto) = Returns [] (Some e)"
    by (simp add: eq)
  show "cache_state (snd (CalculateGGR cache repo tget tset w tfrom tto)) = cache_state w"
    by (simp add: eq)
  show "cache_sets (snd (CalculateGGR cache repo tget tset w tfrom tto)) = cache_sets w"
    using before_repo_sets [of "ggr_key tfrom tto" found "rows_switch v" w]
    by (simp add: eq cache_sets_def emit_def is_cache_set_def)
next
  assume a: "cache_Get cache (cache_state w) tget (daily_wager_key tfrom tto) = (v, found)
      \<and> \<not> (found \<and> is_hit (rows_switch v))
      \<and> repo_CalculateDailyWagerVolume repo tfrom tto = Returns x (Some e)"
  then have eq: "CalculateDailyWagerVolume cache repo tget tset w tfrom tto
      = (Returns [] (Some e),
         emit (RepoDaily tfrom tto) (before_repo (daily_wager_key tfrom tto) found (rows_switch v) w))"
    using CalculateDailyWagerVolume_miss [of cache w tget tfrom tto v found repo tset]
    by (simp add: Let_def)
  show "fst (CalculateDailyWagerVolume cache repo tget tset w tfrom tto) = Returns [] (Some e)"
    by (simp add: eq)
  show "cache_state (snd (CalculateDailyWagerVolume cache repo tget tset w tfrom tto)) = cache_state w"
    by (simp add: eq)
  show "cache_sets (snd (CalculateDailyWagerVolume cache repo tget tset w tfrom tto)) = cache_sets w"
    using before_repo_sets [of "daily_wager_key tfrom tto" found "rows_switch v" w]
    by (simp add: eq cache_sets_def emit_def is_cache_set_def)
next
  assume a: "cache_Get cache (cache_state w) tget (percentile_key userID tfrom tto) = (v, found)
      \<and> \<not> (found \<and> is_hit (percentile_switch pf v))
      \<and> repo_CalculateUserWagerPercentile repo userID tfrom tto = Returns y (Some e)"
  then have eq: "CalculateUserWagerPercentile pf cache repo tget tset w userID tfrom tto
      = (Returns (Finite 0) (Some e),
         emit (RepoPercentile userID tfrom tto)
           (before_repo (percentile_key userID tfrom tto) found (percentile_switch pf v) w))"
    using CalculateUserWagerPercentile_miss [of cache w tget userID tfrom tto v found pf repo tset]
    by (simp add: Let_def)
  show "fst (CalculateUserWagerPercentile pf cache repo tget tset w userID tfrom tto)
          = Returns (Finite 0) (Some e)"
    by (simp add: eq)
  show "cache_state (snd (CalculateUserWagerPercentile pf cache repo tget tset w userID tfrom tto))
          = cache_state w"
    by (simp add: eq)
  show "cache_sets (snd (CalculateUserWagerPercentile pf cache repo tget tset w userID tfrom tto))
          = cache_sets w"
    using before_repo_sets
      [of "percentile_key userID tfrom tto" found "percentile_switch pf v" w]
    by (simp add: eq cache_sets_def emit_def is_cache_set_def)
qed

theorem repository_error_passthrough_witness:
  "cache_Get MemoryCache_impl (cache_state empty_world) 0 (ggr_key from0 to0) = (VNil, False)
   \<and> repo_CalculateGGR failing_repo from0 to0 = Returns [] (Some database_error)
   \<and> fst (CalculateGGR MemoryCache_impl failing_repo 0 0 empty_world from0 to0)
       = Returns [] (Some database_error)
   \<and> cache_state (snd (CalculateGGR MemoryCache_impl failing_repo 0 0 empty_world from0 to0))
       = cache_state empty_world
   \<and> cache_Get MemoryCache_impl (cache_state empty_world) 0 (daily_wager_key from0 to0) = (VNil, False)
   \<and> fst (CalculateDailyWagerVolume MemoryCache_impl failing_repo 0 0 empty_world from0 to0)
       = Returns [] (Some database_error)
   \<and> cache_Get MemoryCache_impl (cache_state empty_world) 0 (percentile_key user0 from0 to0)
       = (VNil, False)
   \<and> fst (CalculateUserWagerPercentile ParseFloat_decimal MemoryCache_impl failing_repo 0 0
            empty_world user0 from0 to0)
       = Returns (Finite 0) (Some database_error)"
proof -
  have g: "\<And>k. cache_Get MemoryCache_impl (cache_state empty_world) 0 k = (VNil, False)"
    by (simp add: MemoryCache_impl_def mc_Get_def empty_world_def NewMemoryCache_def)
  have r: "repo_CalculateGGR failing_repo from0 to0 = Returns [] (Some database_error)"
    "repo_CalculateDailyWagerVolume failing_repo from0 to0 = Returns [] (Some database_error)"
    "repo_CalculateUserWagerPercentile failing_repo user0 from0 to0
       = Returns (Finite 0) (Some database_error)"
    by (simp_all add: failing_repo_def)
  show ?thesis
    using repository_error_passthrough
      [where cache = MemoryCache_impl and w = empty_world and tget = 0 and tset = 0
         and tfrom = from0 and tto = to0 and v = VNil and found = False
         and repo = failing_repo and x = "[]" and e = database_error
         and userID = user0 and pf = ParseFloat_decimal and y = "Finite 0"]
    by (simp add: g r)
qed


lemma repo_calls_state [simp]: "repo_calls (w\<lparr>cache_state := c\<rparr>) = repo_calls w"
  by (simp add: repo_calls_def)

lemma is_hit_Hit: "is_hit s \<Longrightarrow> \<exists>x. s = Hit x"
  by (cases s) (simp_all add: is_hit_def)
















lemma empty_world_Get:
  "cache_Get MemoryCache_impl (cache_state empty_world) now k = (VNil, False)"
  by (simp add: MemoryCache_impl_def mc_Get_def empty_world_def NewMemoryCache_def)





text \<open>
  C6. On the cache-hit path of the percentile operation a string that ParseFloat accepts
  is reconstructed to the float it parses to and returned without a repository call; a
  native float, an int and a map holding a float under the key "value" are accepted in
  the same way.
\<close>

theorem percentile_accepts_numeric_shapes:
  assumes "cache_Get cache (cache_state w) tget (percentile_key userID tfrom tto) = (v, True)"
    and "(v = VString s \<and> pf s = Some x) \<or> v = VFloat x
         \<or> (v = VInt n \<and> x = Finite (f64_of_int n))
         \<or> (v = VMap m \<and> map_of m ''value'' = Some (VFloat x))"
  shows "CalculateUserWagerPercentile pf cache repo tget tset w userID tfrom tto
           = (Returns x None, emit (CacheGet (percentile_key userID tfrom tto)) w)"
proof -
  from assms(2) have "percentile_switch pf v = Hit x"
    by (auto simp add: percentile_switch_def)
  with assms(1) show ?thesis by (rule CalculateUserWagerPercentile_hit)
qed

lemma cached_world_Get:
  "cache_Get MemoryCache_impl (cache_state (cached_world key v)) 1 key = (v, True)"
  by (simp add: cached_world_def MemoryCache_impl_def mc_Get_def mc_Set_def fiveMinutes_def)

lemma ParseFloat_decimal_95_5: "ParseFloat_decimal ''95.5'' = Some (Finite (191 / 2))"
  by code_simp

theorem percentile_accepts_numeric_shapes_witness:
  "cache_Get MemoryCache_impl
      (cache_state (cached_world (percentile_key user0 from0 to0) (VString ''95.5''))) 1
      (percentile_key user0 from0 to0) = (VString ''95.5'', True)
   \<and> ParseFloat_decimal ''95.5'' = Some (Finite (191 / 2))
   \<and> CalculateUserWagerPercentile ParseFloat_decimal MemoryCache_impl failing_repo 1 1
        (cached_world (percentile_key user0 from0 to0) (VString ''95.5'')) user0 from0 to0
       = (Returns (Finite (191 / 2)) None,
          emit (CacheGet (percentile_key user0 from0 to0))
            (cached_world (percentile_key user0 from0 to0) (VString ''95.5'')))"
  using percentile_accepts_numeric_shapes
    [where cache = MemoryCache_impl and tget = 1 and tset = 1 and userID = user0
       and w = "cached_world (percentile_key user0 from0 to0) (VString ''95.5'')"
       and tfrom = from0 and tto = to0 and v = "VString ''95.5''" and s = "''95.5''"
       and pf = ParseFloat_decimal and x = "Finite (191 / 2)" and repo = failing_repo,
     OF cached_world_Get]
    cached_world_Get [of "percentile_key user0 from0 to0" "VString ''95.5''"]
    ParseFloat_decimal_95_5
  by simp

text \<open>
  C9. On the cache-hit path of the two list-shaped operations, a cached generic sequence
  is returned as a list of the same length in which every element that is a generic map
  is copied to its slot and every other element leaves a nil map in its slot; the
  repository is not called.
\<close>

theorem generic_sequence_reconstruction:
  "(cache_Get cache (cache_state w) tget (ggr_key tfrom tto) = (VSlice data, True)
    \<longrightarrow> (\<exists>result.
          CalculateGGR cache repo tget tset w tfrom tto
            = (Returns result None, emit (CacheGet (ggr_key tfrom tto)) w)
          \<and> length result = length data
          \<and> (\<forall>i < length data.
                (\<forall>mapItem. data ! i = VMap mapItem \<longrightarrow> result ! i = Some mapItem)
                \<and> ((\<forall>mapItem. data ! i \<noteq> VMap mapItem) \<longrightarrow> result ! i = None))))
   \<and> (cache_Get cache (cache_state w) tget (daily_wager_key tfrom tto) = (VSlice data, True)
    \<longrightarrow> (\<exists>result.
          CalculateDailyWagerVolume cache repo tget tset w tfrom tto
            = (Returns result None, emit (CacheGet (daily_wager_key tfrom tto)) w)
          \<and> length result = length data
          \<and> (\<forall>i < length data.
                (\<forall>mapItem. data ! i = VMap mapItem \<longrightarrow> result ! i = Some mapItem)
                \<and> ((\<forall>mapItem. data ! i \<noteq> VMap mapItem) \<longrightarrow> result ! i = None))))"
proof -
  define conv where "conv = (\<lambda>item. case item of VMap mapItem \<Rightarrow> Some mapItem | _ \<Rightarrow> None)"
  have sw: "rows_switch (VSlice data) = Hit (map conv data)"
    by (simp add: rows_switch_def conv_def)
  have slots: "\<forall>i < length data.
      (\<forall>mapItem. data ! i = VMap mapItem \<longrightarrow> map conv data ! i = Some mapItem)
      \<and> ((\<forall>mapItem. data ! i \<noteq> VMap mapItem) \<longrightarrow> map conv data ! i = None)"
    by (auto simp add: conv_def split: val.splits)
  show ?thesis
  proof (intro conjI impI)
    assume g: "cache_Get cache (cache_state w) tget (ggr_key tfrom tto) = (VSlice data, True)"
    have "CalculateGGR cache repo tget tset w tfrom tto
            = (Returns (map conv data) None, emit (CacheGet (ggr_key tfrom tto)) w)"
      using g sw by (rule CalculateGGR_hit)
    with slots show "\<exists>result.
          CalculateGGR cache repo tget tset w tfrom tto
            = (Returns result None, emit (CacheGet (ggr_key tfrom tto)) w)
          \<and> length result = length data
          \<and> (\<forall>i < length data.
                (\<forall>mapItem. data ! i = VMap mapItem \<longrightarrow> result ! i = Some mapItem)
                \<and> ((\<forall>mapItem. data ! i \<noteq> VMap mapItem) \<longrightarrow> result ! i = None))"
      by (intro exI [of _ "map conv data"]) simp
  next
    assume g: "cache_Get cache (cache_state w) tget (daily_wager_key tfrom tto) = (VSlice data, True)"
    have "CalculateDailyWagerVolume cache repo tget tset w tfrom tto
            = (Returns (map conv data) None, emit (CacheGet (daily_wager_key tfrom tto)) w)"
      using g sw by (rule CalculateDailyWagerVolume_hit)
    with slots show "\<exists>result.
          CalculateDailyWagerVolume cache repo tget tset w tfrom tto
            = (Returns result None, emit (CacheGet (daily_wager_key tfrom tto)) w)
          \<and> length result = length data
          \<and> (\<forall>i < length data.
                (\<forall>mapItem. data ! i = VMap mapItem \<longrightarrow> result ! i = Some mapItem)
                \<and> ((\<forall>mapItem. data ! i \<noteq> VMap mapItem) \<longrightarrow> result ! i = None))"
      by (intro exI [of _ "map conv data"]) simp
  qed
qed

theorem generic_sequence_reconstruction_witness:
  "cache_Get MemoryCache_impl (cache_state (cached_world (ggr_key from0 to0) mixed_slice)) 1
      (ggr_key from0 to0) = (mixed_slice, True)
   \<and> CalculateGGR MemoryCache_impl failing_repo 1 1
        (cached_world (ggr_key from0 to0) mixed_slice) from0 to0
       = (Returns [Some sample_row, None, None] None,
          emit (CacheGet (ggr_key from0 to0)) (cached_world (ggr_key from0 to0) mixed_slice))"
proof -
  have g: "cache_Get MemoryCache_impl (cache_state (cached_world (ggr_key from0 to0) mixed_slice)) 1
      (ggr_key from0 to0) = (VSlice [VMap sample_row, VString ''BTC'', VNil], True)"
    using cached_world_Get [of "ggr_key from0 to0" mixed_slice] by (simp add: mixed_slice_def)
  note th = generic_sequence_reconstruction
    [where cache = MemoryCache_impl and tget = 1 and tset = 1 and repo = failing_repo
       and w = "cached_world (ggr_key from0 to0) mixed_slice" and tfrom = from0 and tto = to0
       and data = "[VMap sample_row, VString ''BTC'', VNil]", THEN conjunct1, THEN mp, OF g]
  then obtain result where r: "CalculateGGR MemoryCache_impl failing_repo 1 1
        (cached_world (ggr_key from0 to0) mixed_slice) from0 to0
       = (Returns result None,
          emit (CacheGet (ggr_key from0 to0)) (cached_world (ggr_key from0 to0) mixed_slice))"
    and len: "length result = length [VMap sample_row, VString ''BTC'', VNil]"
    and slots: "\<forall>i < length [VMap sample_row, VString ''BTC'', VNil].
        (\<forall>mapItem. [VMap sample_row, VString ''BTC'', VNil] ! i = VMap mapItem
            \<longrightarrow> result ! i = Some mapItem)
        \<and> ((\<forall>mapItem. [VMap sample_row, VString ''BTC'', VNil] ! i \<noteq> VMap mapItem)
            \<longrightarrow> result ! i = None)"
    by (elim exE conjE)
  from len obtain a b c where abc: "result = [a, b, c]"
    by (auto simp add: length_Suc_conv)
  have "a = Some sample_row" using slots [THEN spec, of 0] by (simp add: abc)
  moreover have "b = None" using slots [THEN spec, of "Suc 0"] by (simp add: abc)
  moreover have "c = None" using slots [THEN spec, of "Suc (Suc 0)"] by (simp add: abc)
  ultimately have "result = [Some sample_row, None, None]" by (simp add: abc)
  with r g show ?thesis by (simp add: mixed_slice_def)
qed

lemma CalculateGGR_error_origin:
  assumes "fst (CalculateGGR cache repo tget tset w tfrom tto) = Returns r (Some e)"
  shows "\<exists>x. repo_CalculateGGR repo tfrom tto = Returns x (Some e)"
proof -
  obtain v found where g: "cache_Get cache (cache_state w) tget (ggr_key tfrom tto) = (v, found)"
    by (cases "cache_Get cache (cache_state w) tget (ggr_key tfrom tto)")
  show ?thesis
  proof (cases "found \<and> is_hit (rows_switch v)")
    case True
    then obtain data where "rows_switch v = Hit data" using is_hit_Hit by blast
    with True g assms show ?thesis by (simp add: CalculateGGR_hit)
  next
    case False
    from assms show ?thesis
      by (cases "repo_CalculateGGR repo tfrom tto")
         (auto simp add: CalculateGGR_miss [OF g False] Let_def split: option.splits)
  qed
qed

lemma CalculateGGR_not_found:
  assumes "cache_Get cache (cache_state w) tget (ggr_key tfrom tto) = (v, False)"
  shows "fst (CalculateGGR cache repo tget tset w tfrom tto)
     = (case repo_CalculateGGR repo tfrom tto of
          Panics \<Rightarrow> Panics
        | Returns results (Some e) \<Rightarrow> Returns [] (Some e)
        | Returns results None \<Rightarrow> Returns results None)"
  using CalculateGGR_miss [OF assms, where repo = repo and tset = tset]
  by (simp add: Let_def split: outcome.splits option.splits)

lemma CalculateDailyWagerVolume_error_origin:
  assumes "fst (CalculateDailyWagerVolume cache repo tget tset w tfrom tto) = Returns r (Some e)"
  shows "\<exists>x. repo_CalculateDailyWagerVolume repo tfrom tto = Returns x (Some e)"
proof -
  obtain v found where g: "cache_Get cache (cache_state w) tget (daily_wager_key tfrom tto) = (v, found)"
    by (cases "cache_Get cache (cache_state w) tget (daily_wager_key tfrom tto)")
  show ?thesis
  proof (cases "found \<and> is_hit (rows_switch v)")
    case True
    then obtain data where "rows_switch v = Hit data" using is_hit_Hit by blast
    with True g assms show ?thesis by (simp add: CalculateDailyWagerVolume_hit)
  next
    case False
    from assms show ?thesis
      by (cases "repo_CalculateDailyWagerVolume repo tfrom tto")
         (auto simp add: CalculateDailyWagerVolume_miss [OF g False] Let_def split: option.splits)
  qed
qed

lemma CalculateDailyWagerVolume_not_found:
  assumes "cache_Get cache (cache_state w) tget (daily_wager_key tfrom tto) = (v, False)"
  shows "fst (CalculateDailyWagerVolume cache repo tget tset w tfrom tto)
     = (case repo_CalculateDailyWagerVolume repo tfrom tto of
          Panics \<Rightarrow> Panics
        | Returns results (Some e) \<Rightarrow> Returns [] (Some e)
        | Returns results None \<Rightarrow> Returns results None)"
  using CalculateDailyWagerVolume_miss [OF assms, where repo = repo and tset = tset]
  by (simp add: Let_def split: outcome.splits option.splits)

lemma CalculateUserWagerPercentile_error_origin:
  assumes "fst (CalculateUserWagerPercentile pf cache repo tget tset w userID tfrom tto) = Returns r (Some e)"
  shows "\<exists>x. repo_CalculateUserWagerPercentile repo userID tfrom tto = Returns x (Some e)"
proof -
  obtain v found where g: "cache_Get cache (cache_state w) tget (percentile_key userID tfrom tto) = (v, found)"
    by (cases "cache_Get cache (cache_state w) tget (percentile_key userID tfrom tto)")
  show ?thesis
  proof (cases "found \<and> is_hit (percentile_switch pf v)")
    case True
    then obtain data where "percentile_switch pf v = Hit data" using is_hit_Hit by blast
    with True g assms show ?thesis by (simp add: CalculateUserWagerPercentile_hit)
  next
    case False
    from assms show ?thesis
      by (cases "repo_CalculateUserWagerPercentile repo userID tfrom tto")
         (auto simp add: CalculateUserWagerPercentile_miss [OF g False] Let_def split: option.splits)
  qed
qed

lemma CalculateUserWagerPercentile_not_found:
  assumes "cache_Get cache (cache_state w) tget (percentile_key userID tfrom tto) = (v, False)"
  shows "fst (CalculateUserWagerPercentile pf cache repo tget tset w userID tfrom tto)
     = (case repo_CalculateUserWagerPercentile repo userID tfrom tto of
          Panics \<Rightarrow> Panics
        | Returns results (Some e) \<Rightarrow> Returns (Finite 0) (Some e)
        | Returns results None \<Rightarrow> Returns results None)"
  using CalculateUserWagerPercentile_miss [OF assms, where repo = repo and tset = tset]
  by (simp add: Let_def split: outcome.splits option.splits)


text \<open>
  C7. The cache capability has no error result. In the remote cache a failure of the
  backend's Get or of the JSON decoding is reported as (nil, false), and a failure of the
  JSON encoding makes Set return with the backend untouched. For every cache
  implementation, an error returned by one of the three operations is an error that the
  repository returned during that call, and when Get reports the key not found the
  result of the operation is determined by the repository's answer alone, whatever the
  cache's Set does.
\<close>

theorem cache_failures_absorbed:
  "(client_Get lib b now key = Inl e \<longrightarrow> redis_Get lib b now key = (VNil, False))
   \<and> (client_Get lib b now key = Inr s \<and> json_Unmarshal lib s = Inl e
        \<longrightarrow> redis_Get lib b now key = (VNil, False))
   \<and> (json_Marshal lib val = Inl e \<longrightarrow> redis_Set lib b now key val d = b)
   \<and> (fst (CalculateGGR cache repo tget tset w tfrom tto) = Returns r (Some e')
        \<longrightarrow> (\<exists>x. repo_CalculateGGR repo tfrom tto = Returns x (Some e')))
   \<and> (fst (CalculateDailyWagerVolume cache repo tget tset w tfrom tto) = Returns r (Some e')
        \<longrightarrow> (\<exists>x. repo_CalculateDailyWagerVolume repo tfrom tto = Returns x (Some e')))
   \<and> (fst (CalculateUserWagerPercentile pf cache repo tget tset w userID tfrom tto)
          = Returns p (Some e')
        \<longrightarrow> (\<exists>x. repo_CalculateUserWagerPercentile repo userID tfrom tto = Returns x (Some e')))
   \<and> (cache_Get cache (cache_state w) tget (ggr_key tfrom tto) = (v, False)
        \<longrightarrow> fst (CalculateGGR cache repo tget tset w tfrom tto)
            = (case repo_CalculateGGR repo tfrom tto of
                 Panics \<Rightarrow> Panics
               | Returns results (Some e) \<Rightarrow> Returns [] (Some e)
               | Returns results None \<Rightarrow> Returns results None))
   \<and> (cache_Get cache (cache_state w) tget (daily_wager_key tfrom tto) = (v, False)
        \<longrightarrow> fst (CalculateDailyWagerVolume cache repo tget tset w tfrom tto)
            = (case repo_CalculateDailyWagerVolume repo tfrom tto of
                 Panics \<Rightarrow> Panics
               | Returns results (Some e) \<Rightarrow> Returns [] (Some e)
               | Returns results None \<Rightarrow> Returns results None))
   \<and> (cache_Get cache (cache_state w) tget (percentile_key userID tfrom tto) = (v, False)
        \<longrightarrow> fst (CalculateUserWagerPercentile pf cache repo tget tset w userID tfrom tto)
            = (case repo_CalculateUserWagerPercentile repo userID tfrom tto of
                 Panics \<Rightarrow> Panics
               | Returns results (Some e) \<Rightarrow> Returns (Finite 0) (Some e)
               | Returns results None \<Rightarrow> Returns results None))"
proof (intro conjI impI)
  assume "client_Get lib b now key = Inl e"
  then show "redis_Get lib b now key = (VNil, False)" by (simp add: redis_Get_def)
next
  assume "client_Get lib b now key = Inr s \<and> json_Unmarshal lib s = Inl e"
  then show "redis_Get lib b now key = (VNil, False)" by (simp add: redis_Get_def)
next
  assume "json_Marshal lib val = Inl e"
  then show "redis_Set lib b now key val d = b" by (simp add: redis_Set_def)
next
  assume "fst (CalculateGGR cache repo tget tset w tfrom tto) = Returns r (Some e')"
  then show "\<exists>x. repo_CalculateGGR repo tfrom tto = Returns x (Some e')"
    by (rule CalculateGGR_error_origin)
next
  assume "fst (CalculateDailyWagerVolume cache repo tget tset w tfrom tto) = Returns r (Some e')"
  then show "\<exists>x. repo_CalculateDailyWagerVolume repo tfrom tto = Returns x (Some e')"
    by (rule CalculateDailyWagerVolume_error_origin)
next
  assume "fst (CalculateUserWagerPercentile pf cache repo tget tset w userID tfrom tto)
          = Returns p (Some e')"
  then show "\<exists>x. repo_CalculateUserWagerPercentile repo userID tfrom tto = Returns x (Some e')"
    by (rule CalculateUserWagerPercentile_error_origin)
next
  assume "cache_Get cache (cache_state w) tget (ggr_key tfrom tto) = (v, False)"
  then show "fst (CalculateGGR cache repo tget tset w tfrom tto)
            = (case repo_CalculateGGR repo tfrom tto of
                 Panics \<Rightarrow> Panics
               | Returns results (Some e) \<Rightarrow> Returns [] (Some e)
               | Returns results None \<Rightarrow> Returns results None)"
    by (rule CalculateGGR_not_found)
next
  assume "cache_Get cache (cache_state w) tget (daily_wager_key tfrom tto) = (v, False)"
  then show "fst (CalculateDailyWagerVolume cache repo tget tset w tfrom tto)
            = (case repo_CalculateDailyWagerVolume repo tfrom tto of
                 Panics \<Rightarrow> Panics
               | Returns results (Some e) \<Rightarrow> Returns [] (Some e)
               | Returns results None \<Rightarrow> Returns results None)"
    by (rule CalculateDailyWagerVolume_not_found)
next
  assume "cache_Get cache (cache_state w) tget (percentile_key userID tfrom tto) = (v, False)"
  then show "fst (CalculateUserWagerPercentile pf cache repo tget tset w userID tfrom tto)
            = (case repo_CalculateUserWagerPercentile repo userID tfrom tto of
                 Panics \<Rightarrow> Panics
               | Returns results (Some e) \<Rightarrow> Returns (Finite 0) (Some e)
               | Returns results None \<Rightarrow> Returns results None)"
    by (rule CalculateUserWagerPercentile_not_found)
qed

theorem cache_failures_absorbed_witness:
  "client_Get sample_lib sample_backend 0 ''absent'' = Inl (Err ''redis: nil'')
   \<and> redis_Get sample_lib sample_backend 0 ''absent'' = (VNil, False)
   \<and> client_Get sample_lib sample_backend 0 ''bad'' = Inr ''{''
   \<and> json_Unmarshal sample_lib ''{'' = Inl (Err ''invalid character'')
   \<and> redis_Get sample_lib sample_backend 0 ''bad'' = (VNil, False)
   \<and> json_Marshal sample_lib (VFloat NaN) = Inl (Err ''json: unsupported value'')
   \<and> redis_Set sample_lib sample_backend 0 ''absent'' (VFloat NaN) fiveMinutes = sample_backend
   \<and> cache_Get (RedisCache_impl sample_lib) sample_backend 0 (ggr_key from0 to0) = (VNil, False)
   \<and> fst (CalculateGGR (RedisCache_impl sample_lib) answering_repo 0 0
            \<lparr>cache_state = sample_backend, trace = []\<rparr> from0 to0)
       = Returns [Some sample_row] None
   \<and> fst (CalculateGGR (RedisCache_impl sample_lib) failing_repo 0 0
            \<lparr>cache_state = sample_backend, trace = []\<rparr> from0 to0)
       = Returns [] (Some database_error)
   \<and> repo_CalculateGGR failing_repo from0 to0 = Returns [] (Some database_error)"
proof -
  have k: "ggr_key from0 to0 \<noteq> ''bad''" by (simp add: ggr_key_def)
  have a: "client_Get sample_lib sample_backend 0 ''absent'' = Inl (Err ''redis: nil'')"
    by (simp add: sample_lib_def sample_backend_def)
  have b: "client_Get sample_lib sample_backend 0 ''bad'' = Inr ''{''"
    by (simp add: sample_lib_def sample_backend_def)
  have c: "json_Unmarshal sample_lib ''{'' = Inl (Err ''invalid character'')"
    by (simp add: sample_lib_def)
  have d: "json_Marshal sample_lib (VFloat NaN) = Inl (Err ''json: unsupported value'')"
    by (simp add: sample_lib_def)
  have g: "cache_Get (RedisCache_impl sample_lib) sample_backend 0 (ggr_key from0 to0)
      = (VNil, False)"
    using k by (simp add: RedisCache_impl_def redis_Get_def sample_lib_def sample_backend_def)
  have r: "repo_CalculateGGR failing_repo from0 to0 = Returns [] (Some database_error)"
    "repo_CalculateGGR answering_repo from0 to0 = Returns [Some sample_row] None"
    by (simp_all add: failing_repo_def answering_repo_def)
  note th = cache_failures_absorbed
    [where lib = sample_lib and b = sample_backend and now = 0 and val = "VFloat NaN"
       and d = fiveMinutes and cache = "RedisCache_impl sample_lib" and tget = 0 and tset = 0
       and w = "\<lparr>cache_state = sample_backend, trace = []\<rparr>" and tfrom = from0 and tto = to0
       and v = VNil]
  show ?thesis
    using th [where key = "''absent''" and e = "Err ''redis: nil''" and repo = failing_repo]
      th [where key = "''bad''" and s = "''{''" and e = "Err ''invalid character''"
            and repo = answering_repo]
      th [where key = "''absent''" and e = "Err ''json: unsupported value''" and repo = failing_repo]
      a b c d g r
    by simp
qed

text \<open>
  C4 (amended). The cache key of each operation is a function of the subject id and, for
  each bound of the range, of its instant truncated to the second together with its zone
  offset: bounds that agree on both derive identical keys.
\<close>

theorem cache_key_of_second_and_offset:
  assumes "unixNano f div 1000000000 = unixNano f' div 1000000000"
    and "zoneOffset f = zoneOffset f'"
    and "unixNano t div 1000000000 = unixNano t' div 1000000000"
    and "zoneOffset t = zoneOffset t'"
  shows "ggr_key f t = ggr_key f' t'
         \<and> daily_wager_key f t = daily_wager_key f' t'
         \<and> percentile_key userID f t = percentile_key userID f' t'"
proof -
  from assms have "Format_RFC3339 f = Format_RFC3339 f'" "Format_RFC3339 t = Format_RFC3339 t'"
    by (simp_all add: Format_RFC3339_def)
  then show ?thesis
    by (simp add: ggr_key_def daily_wager_key_def percentile_key_def)
qed

lemma from0_value: "from0 = \<lparr>unixNano = 1672531200000000000, zoneOffset = 0\<rparr>"
  by (simp add: from0_def Date_def days_from_civil_def Let_def)

lemma from0_plus1h_value: "from0_plus1h = \<lparr>unixNano = 1672531200000000000, zoneOffset = 3600\<rparr>"
  by (simp add: from0_plus1h_def Date_def days_from_civil_def Let_def)

lemma Format_from0: "Format_RFC3339 from0 = ''2023-01-01T00:00:00Z''"
  unfolding from0_value by code_simp

lemma Format_from0_plus1h: "Format_RFC3339 from0_plus1h = ''2023-01-01T01:00:00+01:00''"
  unfolding from0_plus1h_value by code_simp

lemma Format_to0: "Format_RFC3339 to0 = ''2023-01-31T00:00:00Z''"
  unfolding to0_def by code_simp

text \<open>The key of the service test for the test's range.\<close>

lemma ggr_key_of_service_test:
  "ggr_key from0 to0 = ''ggr:2023-01-01T00:00:00Z:2023-01-31T00:00:00Z''"
  by (simp add: ggr_key_def Format_from0 Format_to0)

theorem cache_key_of_second_and_offset_witness:
  "unixNano from0 div 1000000000 = unixNano from0_later div 1000000000
   \<and> zoneOffset from0 = zoneOffset from0_later
   \<and> from0 \<noteq> from0_later
   \<and> ggr_key from0 to0 = ggr_key from0_later to0
   \<and> daily_wager_key from0 to0 = daily_wager_key from0_later to0
   \<and> percentile_key user0 from0 to0 = percentile_key user0 from0_later to0"
proof -
  have a: "unixNano from0 div 1000000000 = unixNano from0_later div 1000000000"
    by (simp add: from0_later_def from0_value)
  have b: "zoneOffset from0 = zoneOffset from0_later" by (simp add: from0_later_def)
  have c: "from0 \<noteq> from0_later" by (simp add: from0_later_def from0_value)
  from cache_key_of_second_and_offset [OF a b refl refl, of to0 user0] a b c
  show ?thesis by simp
qed

text \<open>
  The same instant carried with two zone offsets derives two different keys: midnight
  UTC of 2023-01-01, and the same instant as 01:00 at offset +01:00.
\<close>

theorem cache_key_differs_across_offsets:
  "unixNano from0 = unixNano from0_plus1h
   \<and> ggr_key from0 to0 \<noteq> ggr_key from0_plus1h to0
   \<and> daily_wager_key from0 to0 \<noteq> daily_wager_key from0_plus1h to0
   \<and> percentile_key user0 from0 to0 \<noteq> percentile_key user0 from0_plus1h to0"
proof -
  have "unixNano from0 = unixNano from0_plus1h"
    by (simp add: from0_value from0_plus1h_value)
  then show ?thesis
    by (simp add: ggr_key_def daily_wager_key_def percentile_key_def
          Format_from0 Format_from0_plus1h)
qed

section \<open>Properties of the percentile computation\<close>

lemma findUserRank_ranked_at:
  "ranked_at userID ranked r \<Longrightarrow> findUserRank userID ranked i = Some (i + int r)"
proof (induction ranked arbitrary: i r)
  case Nil
  then show ?case by (simp add: ranked_at_def)
next
  case (Cons d rest)
  show ?case
  proof (cases "r = 1")
    case True
    with Cons.prems show ?thesis by (simp add: ranked_at_def is_user_def)
  next
    case False
    with Cons.prems obtain r' where r': "r = Suc r'" "1 \<le> r'"
      by (cases r) (auto simp add: ranked_at_def)
    with Cons.prems have o: "other_user userID d" and rest: "ranked_at userID rest r'"
      by (auto simp add: ranked_at_def take_Suc_Cons nth_Cons split: nat.splits)
    from o obtain s where s: "map_of d ''_id'' = Some (VString s)" "s \<noteq> userID"
      by (auto simp add: other_user_def split: option.splits val.splits)
    from Cons.IH [OF rest, of "i + 1"] s r' show ?thesis by simp
  qed
qed


lemma fl_1: "fl 1 = 1" using fl_of_int_exact [of 1] by simp

lemma fl_100: "fl 100 = 100" using fl_of_int_exact [of 100] by simp


lemma percentile_of_rank_5_5: "percentile_of_rank 5 5 = 20"
  by code_simp

lemma percentile_of_rank_range:
  assumes "1 \<le> r" "r \<le> n"
  shows "0 \<le> percentile_of_rank r n" and "percentile_of_rank r n \<le> 100"
proof -
  define a where "a = f64_of_int (r - 1)"
  define b where "b = f64_of_int n"
  have a0: "0 \<le> a" unfolding a_def f64_of_int_def using assms by (intro fl_nonneg) simp
  have "fl 1 \<le> fl (of_int n)" using assms by (intro fl_mono) simp_all
  then have b1: "1 \<le> b" by (simp add: b_def f64_of_int_def fl_1)
  have ab: "a \<le> b" unfolding a_def b_def f64_of_int_def using assms by (intro fl_mono) simp_all
  define q where "q = f64_div a b"
  have q0: "0 \<le> q" unfolding q_def f64_div_def using a0 b1 by (intro fl_nonneg) simp
  have "fl (a / b) \<le> fl 1" using a0 b1 ab by (intro fl_mono) simp_all
  then have q1: "q \<le> 1" by (simp add: q_def f64_div_def fl_1)
  define p where "p = f64_mul q 100"
  have p0: "0 \<le> p" unfolding p_def f64_mul_def using q0 by (intro fl_nonneg) simp
  have "fl (q * 100) \<le> fl 100" using q0 q1 by (intro fl_mono) simp_all
  then have p1: "p \<le> 100" by (simp add: p_def f64_mul_def fl_100)
  have res: "percentile_of_rank r n = fl (100 - p)"
    by (simp add: percentile_of_rank_def f64_sub_def p_def q_def a_def b_def)
  show "0 \<le> percentile_of_rank r n" unfolding res using p1 by (intro fl_nonneg) simp
  have "fl (100 - p) \<le> fl 100" using p0 p1 by (intro fl_mono) simp_all
  then show "percentile_of_rank r n \<le> 100" by (simp add: res fl_100)
qed

lemma fl_below_one: "fl (1 - 1 / 2 ^ 53) = 1 - 1 / 2 ^ 53"
  by code_simp

lemma fl_below_hundred: "fl ((1 - 1 / 2 ^ 53) * 100) = 100 - 1 / 2 ^ 46"
  by code_simp

lemma fl_tiny: "fl (1 / 2 ^ 46) = 1 / 2 ^ 46"
  by code_simp

lemma percentile_of_rank_pos:
  assumes "1 \<le> r" "r \<le> n" "n \<le> 2 ^ 53"
  shows "0 < percentile_of_rank r n"
proof -
  have a: "f64_of_int (r - 1) = of_int (r - 1)"
    unfolding f64_of_int_def using assms by (intro fl_of_int_exact) simp_all
  have b: "f64_of_int n = of_int n"
    unfolding f64_of_int_def using assms by (intro fl_of_int_exact) simp_all
  have npos: "(0::rat) < of_int n" using assms by simp
  have "(of_int n :: rat) \<le> of_int (2 ^ 53)" using assms(3) by (simp only: of_int_le_iff)
  then have n53: "(of_int n :: rat) \<le> 2 ^ 53" by simp
  have "(of_int (r - 1) :: rat) \<le> of_int (n - 1)" using assms(2) by simp
  then have "(of_int (r - 1) :: rat) / of_int n \<le> of_int (n - 1) / of_int n"
    using npos by (simp add: divide_right_mono)
  also have "\<dots> = 1 - 1 / of_int n" using npos by (simp add: field_simps)
  also have "\<dots> \<le> 1 - 1 / 2 ^ 53" using npos n53 by (simp add: frac_le)
  finally have x0: "(of_int (r - 1) :: rat) / of_int n \<le> 1 - 1 / 2 ^ 53" .
  have x0n: "(0::rat) \<le> of_int (r - 1) / of_int n" using assms npos by simp
  define q where "q = f64_div (of_int (r - 1)) (of_int n)"
  have "fl (of_int (r - 1) / of_int n) \<le> fl (1 - 1 / 2 ^ 53)" using x0n x0 by (rule fl_mono)
  then have q1: "q \<le> 1 - 1 / 2 ^ 53" by (simp only: q_def f64_div_def fl_below_one)
  have q0: "0 \<le> q" unfolding q_def f64_div_def using x0n by (rule fl_nonneg)
  define p where "p = f64_mul q 100"
  have "q * 100 \<le> (1 - 1 / 2 ^ 53) * 100" using q1 by simp
  moreover have "0 \<le> q * 100" using q0 by simp
  ultimately have "fl (q * 100) \<le> fl ((1 - 1 / 2 ^ 53) * 100)" by (intro fl_mono)
  then have p1: "p \<le> 100 - 1 / 2 ^ 46" by (simp only: p_def f64_mul_def fl_below_hundred)
  have "fl (1 / 2 ^ 46) \<le> fl (100 - p)" using p1 by (intro fl_mono) simp_all
  then have "1 / 2 ^ 46 \<le> fl (100 - p)" by (simp only: fl_tiny)
  moreover have "percentile_of_rank r n = fl (100 - p)"
    by (simp add: percentile_of_rank_def f64_sub_def p_def q_def a b)
  ultimately show ?thesis by simp
qed





lemma TransactionRepository_percentile_no_activity:
  assumes "collection (UserWagerPipeline userID tfrom tto) = Docs []"
  shows "TransactionRepository_CalculateUserWagerPercentile collection userID tfrom tto
           = Returns (Finite 0) None"
  using assms by (simp add: TransactionRepository_CalculateUserWagerPercentile_def)

lemma TransactionRepository_percentile_ranked:
  assumes "collection (UserWagerPipeline userID tfrom tto) = Docs userResults"
    and "userResults \<noteq> []"
    and "collection (AllUsersPipeline tfrom tto) = Docs ranked"
    and "ranked_at userID ranked r"
  shows "TransactionRepository_CalculateUserWagerPercentile collection userID tfrom tto
           = Returns (Finite (percentile_of_rank (int r) (int (length ranked)))) None"
proof -
  from assms(4) have "ranked \<noteq> []" by (auto simp add: ranked_at_def)
  with assms(1-3) findUserRank_ranked_at [OF assms(4), of 0] show ?thesis
    by (simp add: TransactionRepository_CalculateUserWagerPercentile_def Let_def)
qed


lemma sample_user_docs:
  "sample_collection (UserWagerPipeline ''u5'' from0 to0) = Docs [wager_doc ''u5'' ''10'']"
  "sample_collection (UserWagerPipeline ''u1'' from0 to0) = Docs [wager_doc ''u1'' ''100'']"
  "sample_collection (UserWagerPipeline ''u9'' from0 to0) = Docs []"
  "sample_collection (AllUsersPipeline from0 to0) = Docs ranked5"
  by (simp_all add: sample_collection_def ranked5_def wager_doc_def is_user_def)

lemma sample_ranked_at: "ranked_at ''u5'' ranked5 5" "ranked_at ''u1'' ranked5 1"
  by (simp_all add: ranked_at_def ranked5_def wager_doc_def is_user_def other_user_def
        eval_nat_numeral)


text \<open>
  C8 (amended). An errorless return of the percentile operation that comes from the
  repository (the cache missed or the cached value did not reconstruct) lies in
  [0, 100] and is 0 exactly when the subject has no wager in the range, provided that a
  subject with a wager appears in the ranking and the ranking has at most \<open>2 ^ 53\<close>
  documents. An errorless return on the cache-hit path is the reconstructed cached
  value, unchanged.
\<close>

theorem percentile_within_bounds:
  assumes repo: "repo_CalculateUserWagerPercentile repo
                   = TransactionRepository_CalculateUserWagerPercentile collection"
    and consistent:
      "\<forall>userResults ranked.
         collection (UserWagerPipeline userID tfrom tto) = Docs userResults \<and> userResults \<noteq> []
           \<and> collection (AllUsersPipeline tfrom tto) = Docs ranked
         \<longrightarrow> (\<exists>r. ranked_at userID ranked r) \<and> int (length ranked) \<le> 2 ^ 53"
    and get: "cache_Get cache (cache_state w) tget (percentile_key userID tfrom tto) = (v, found)"
    and ret: "fst (CalculateUserWagerPercentile pf cache repo tget tset w userID tfrom tto)
                = Returns x None"
  shows "(found \<and> is_hit (percentile_switch pf v) \<longrightarrow> percentile_switch pf v = Hit x)
         \<and> (\<not> (found \<and> is_hit (percentile_switch pf v))
            \<longrightarrow> (\<exists>p. x = Finite p \<and> 0 \<le> p \<and> p \<le> 100
                   \<and> (p = 0 \<longleftrightarrow> collection (UserWagerPipeline userID tfrom tto) = Docs [])))"
proof (intro conjI impI)
  assume h: "found \<and> is_hit (percentile_switch pf v)"
  then obtain y where y: "percentile_switch pf v = Hit y" using is_hit_Hit by blast
  from h get have "cache_Get cache (cache_state w) tget (percentile_key userID tfrom tto) = (v, True)"
    by simp
  from CalculateUserWagerPercentile_hit [OF this y] ret show "percentile_switch pf v = Hit x"
    by (simp add: y)
next
  assume m: "\<not> (found \<and> is_hit (percentile_switch pf v))"
  let ?R = "TransactionRepository_CalculateUserWagerPercentile collection userID tfrom tto"
  from CalculateUserWagerPercentile_miss [OF get m, where repo = repo and tset = tset] ret repo
  have R: "?R = Returns x None"
    by (cases ?R) (auto simp add: Let_def split: option.splits)
  show "\<exists>p. x = Finite p \<and> 0 \<le> p \<and> p \<le> 100
          \<and> (p = 0 \<longleftrightarrow> collection (UserWagerPipeline userID tfrom tto) = Docs [])"
  proof (cases "collection (UserWagerPipeline userID tfrom tto)")
    case (AggregateError e)
    with R show ?thesis by (simp add: TransactionRepository_CalculateUserWagerPercentile_def)
  next
    case (CursorError e)
    with R show ?thesis by (simp add: TransactionRepository_CalculateUserWagerPercentile_def)
  next
    case (Docs userResults)
    show ?thesis
    proof (cases "userResults = []")
      case True
      with Docs R TransactionRepository_percentile_no_activity [of collection userID tfrom tto]
      show ?thesis by simp
    next
      case False
      show ?thesis
      proof (cases "collection (AllUsersPipeline tfrom tto)")
        case (AggregateError e)
        with R Docs False show ?thesis
          by (simp add: TransactionRepository_CalculateUserWagerPercentile_def)
      next
        case (CursorError e)
        with R Docs False show ?thesis
          by (simp add: TransactionRepository_CalculateUserWagerPercentile_def)
      next
        case ranked: (Docs ranked)
        from consistent Docs False ranked obtain r where
          r: "ranked_at userID ranked r" and n: "int (length ranked) \<le> 2 ^ 53"
          by blast
        from r have rn: "1 \<le> int r" "int r \<le> int (length ranked)"
          by (simp_all add: ranked_at_def)
        from TransactionRepository_percentile_ranked [OF Docs False ranked r] R
        have x: "x = Finite (percentile_of_rank (int r) (int (length ranked)))" by simp
        from percentile_of_rank_range [OF rn] percentile_of_rank_pos [OF rn n] Docs False x
        show ?thesis by simp
      qed
    qed
  qed
qed

lemma sample_consistent:
  "\<forall>userResults ranked.
     sample_collection (UserWagerPipeline ''u5'' from0 to0) = Docs userResults \<and> userResults \<noteq> []
       \<and> sample_collection (AllUsersPipeline from0 to0) = Docs ranked
     \<longrightarrow> (\<exists>r. ranked_at ''u5'' ranked r) \<and> int (length ranked) \<le> 2 ^ 53"
  using sample_ranked_at(1) by (auto simp add: sample_user_docs(4) ranked5_def)

lemma percentile_repo_percentile:
  "repo_CalculateUserWagerPercentile (percentile_repo collection)
     = TransactionRepository_CalculateUserWagerPercentile collection"
  by (simp add: percentile_repo_def)

theorem percentile_within_bounds_witness:
  "cache_Get MemoryCache_impl (cache_state empty_world) 0 (percentile_key ''u5'' from0 to0)
     = (VNil, False)
   \<and> fst (CalculateUserWagerPercentile ParseFloat_decimal MemoryCache_impl
            (percentile_repo sample_collection) 0 0 empty_world ''u5'' from0 to0)
       = Returns (Finite 20) None
   \<and> (0::rat) \<le> 20 \<and> (20::rat) \<le> 100
   \<and> sample_collection (UserWagerPipeline ''u5'' from0 to0) \<noteq> Docs []"
proof -
  have R: "TransactionRepository_CalculateUserWagerPercentile sample_collection ''u5'' from0 to0
       = Returns (Finite 20) None"
    using TransactionRepository_percentile_ranked
      [OF sample_user_docs(1) _ sample_user_docs(4) sample_ranked_at(1)]
    by (simp add: ranked5_def percentile_of_rank_5_5)
  have ret: "fst (CalculateUserWagerPercentile ParseFloat_decimal MemoryCache_impl
            (percentile_repo sample_collection) 0 0 empty_world ''u5'' from0 to0)
       = Returns (Finite 20) None"
    using CalculateUserWagerPercentile_miss
      [OF empty_world_Get, where repo = "percentile_repo sample_collection" and tset = 0
         and tget = 0 and userID = "''u5''" and tfrom = from0 and tto = to0
         and pf = ParseFloat_decimal]
    by (simp add: Let_def percentile_repo_percentile R)
  from percentile_within_bounds
    [OF percentile_repo_percentile sample_consistent empty_world_Get ret]
    ret empty_world_Get sample_user_docs(1)
  show ?thesis by simp
qed

text \<open>
  On the cache-hit path the cached value is returned without a range check: a cached
  150 is returned as 150.
\<close>

theorem cached_percentile_out_of_range:
  "cache_Get MemoryCache_impl
      (cache_state (cached_world (percentile_key user0 from0 to0) (VFloat (Finite 150)))) 1
      (percentile_key user0 from0 to0) = (VFloat (Finite 150), True)
   \<and> fst (CalculateUserWagerPercentile ParseFloat_decimal MemoryCache_impl answering_repo 1 1
        (cached_world (percentile_key user0 from0 to0) (VFloat (Finite 150))) user0 from0 to0)
       = Returns (Finite 150) None
   \<and> (100::rat) < 150"
proof -
  have "percentile_switch ParseFloat_decimal (VFloat (Finite 150)) = Hit (Finite 150)"
    by (simp add: percentile_switch_def)
  from CalculateUserWagerPercentile_hit [OF cached_world_Get this]
    cached_world_Get [of "percentile_key user0 from0 to0" "VFloat (Finite 150)"]
  show ?thesis by simp
qed

text \<open>
  The loop leaves the rank at 0 for a subject that the ranking does not list; the
  formula then gives 200 for a ranking of one document.
\<close>

lemma percentile_of_rank_unlisted: "percentile_of_rank 0 1 = 200"
  by code_simp

lemma TransactionRepository_percentile_unlisted:
  "TransactionRepository_CalculateUserWagerPercentile stale_collection ''u9'' from0 to0
     = Returns (Finite 200) None"
  by (simp add: TransactionRepository_CalculateUserWagerPercentile_def stale_collection_def
        wager_doc_def percentile_of_rank_unlisted)

end
